theory Spec2Isabelle
  imports Complex_Main
begin

chapter \<open>Definitions: the embedded program\<close>

section \<open>Shared data model\<close>

text \<open>
  Errors raised by the modelled functions, as values.  \<open>MissingColumns\<close> is the
  \<open>ValueError\<close> of the column checks (it carries the missing names), \<open>IndexError\<close> is
  Python's out-of-range read, \<open>NotFitted\<close> is the \<open>RuntimeError\<close> of the scaler, and
  \<open>ShapeError\<close> stands for the errors that numpy, pandas and torch raise on operands
  whose shapes do not fit.
\<close>

datatype error = MissingColumns "string list" | IndexError | NotFitted | ShapeError

text \<open>
  A pandas \<open>DataFrame\<close>: the row index and the columns in their order, each column
  a name with its cells.  Floating-point numbers are idealised as reals throughout
  (rounding and overflow are not modelled); a cell that may be not-a-number is a
  \<open>real option\<close> with \<open>None\<close> for NaN.  \<open>wf_df\<close> is the invariant of pandas that
  every column has one cell per index entry.
\<close>

record 'a dataframe =
  df_index :: "int list"
  df_cols :: "(string \<times> 'a list) list"

definition wf_df :: "'a dataframe \<Rightarrow> bool" where
  "wf_df df = list_all (\<lambda>(c, vs). length vs = length (df_index df)) (df_cols df)"

text \<open>Reading a column of a result by name; \<open>[]\<close> when the call failed or the
  column is absent.\<close>

definition column :: "error + 'a dataframe \<Rightarrow> string \<Rightarrow> 'a list" where
  "column r c = (case r of Inl e \<Rightarrow> [] | Inr df \<Rightarrow>
                   (case map_of (df_cols df) c of None \<Rightarrow> [] | Some vs \<Rightarrow> vs))"

text \<open>A number in decimal, for the column labels that carry one.\<close>

fun digits :: "nat \<Rightarrow> string" where
  "digits n = (if n < 10 then [char_of (48 + n)]
               else digits (n div 10) @ [char_of (48 + n mod 10)])"

section \<open>Heikin-Ashi transform (data/ha.py)\<close>

definition required_columns :: "string list" where
  "required_columns = [''open'', ''high'', ''low'', ''close'']"

text \<open>Lines 17-19: the row sum of the four raw columns, divided by 4.\<close>

definition ha_close_col :: "real list \<Rightarrow> real list \<Rightarrow> real list \<Rightarrow> real list \<Rightarrow> nat \<Rightarrow> real list" where
  "ha_close_col op hi lo cl n = map (\<lambda>i. (op ! i + hi ! i + lo ! i + cl ! i) / 4) [0..<n]"

text \<open>The loop of lines 23-24: \<open>prev\<close> is \<open>ha_open[i - 1]\<close>, the list holds
  \<open>ha_close[i - 1]\<close>, \<open>ha_close[i]\<close>, ... for the rows still to be filled.\<close>

fun ha_open_loop :: "real \<Rightarrow> real list \<Rightarrow> real list" where
  "ha_open_loop prev [] = []"
| "ha_open_loop prev (c # cs) = (let v = (prev + c) / 2 in v # ha_open_loop v cs)"

text \<open>Lines 21-25, for a table with at least one row.\<close>

definition ha_open_col :: "real list \<Rightarrow> real list \<Rightarrow> real list \<Rightarrow> real list" where
  "ha_open_col op cl ha_close =
     (op ! 0 + cl ! 0) / 2 # ha_open_loop ((op ! 0 + cl ! 0) / 2) (butlast ha_close)"

text \<open>
  \<open>compute_heikin_ashi\<close>: the column check of lines 11-14, then the four derived
  columns in the order the source inserts them.  On a table without rows the read
  \<open>ohlcv["open"].iloc[0]\<close> of line 22 raises \<open>IndexError\<close>.
\<close>

definition compute_heikin_ashi :: "real dataframe \<Rightarrow> error + real dataframe" where
  "compute_heikin_ashi ohlcv =
     (let cs = df_cols ohlcv; n = length (df_index ohlcv) in
      case (map_of cs ''open'', map_of cs ''high'', map_of cs ''low'', map_of cs ''close'') of
        (Some op, Some hi, Some lo, Some cl) \<Rightarrow>
          let ha_close = ha_close_col op hi lo cl n in
          if n = 0 then Inl IndexError
          else
            let ha_open = ha_open_col op cl ha_close;
                ha_high = map (\<lambda>i. max (max (hi ! i) (ha_open ! i)) (ha_close ! i)) [0..<n];
                ha_low = map (\<lambda>i. min (min (lo ! i) (ha_open ! i)) (ha_close ! i)) [0..<n]
            in Inr \<lparr>df_index = df_index ohlcv,
                    df_cols = [(''ha_close'', ha_close), (''ha_open'', ha_open),
                               (''ha_high'', ha_high), (''ha_low'', ha_low)]\<rparr>
      | _ \<Rightarrow> Inl (MissingColumns (filter (\<lambda>c. map_of cs c = None) required_columns)))"

text \<open>A table of raw bars given row by row as (open, high, low, close), indexed 0, 1, ...\<close>

definition ohlc_frame :: "(real \<times> real \<times> real \<times> real) list \<Rightarrow> real dataframe" where
  "ohlc_frame rows =
     \<lparr>df_index = map int [0..<length rows],
      df_cols = [(''open'', map (\<lambda>(a, b, c, d). a) rows), (''high'', map (\<lambda>(a, b, c, d). b) rows),
                 (''low'', map (\<lambda>(a, b, c, d). c) rows), (''close'', map (\<lambda>(a, b, c, d). d) rows)]\<rparr>"

section \<open>Rolling slope, angle and acceleration (features/ha_external.py)\<close>

text \<open>
  Lines 7-15: the least-squares slope of the window values \<open>y\<close> against
  \<open>x = 0, ..., window - 1\<close>, and 0 when the spread \<open>denom\<close> of \<open>x\<close> is 0.
\<close>

definition slope_calc :: "nat \<Rightarrow> real list \<Rightarrow> real" where
  "slope_calc window y =
     (let x = map real [0..<window];
          x_mean = sum_list x / real window;
          denom = sum_list (map (\<lambda>xi. (xi - x_mean)\<^sup>2) x);
          y_mean = sum_list y / real (length y);
          num = sum_list (map (\<lambda>(xi, yi). (xi - x_mean) * (yi - y_mean)) (zip x y))
      in if denom \<noteq> 0 then num / denom else 0)"

text \<open>
  \<open>series.rolling(window, min_periods=window).apply(f, raw=True)\<close> on the values of
  a series: row \<open>i\<close> is defined when the \<open>window\<close> rows ending at \<open>i\<close> exist and all
  hold a value, and is then \<open>f\<close> of these values, oldest first.
\<close>

definition rolling_apply :: "nat \<Rightarrow> (real list \<Rightarrow> real) \<Rightarrow> real option list \<Rightarrow> real option list" where
  "rolling_apply window f xs =
     map (\<lambda>i. case those (drop (i + 1 - window) (take (i + 1) xs)) of
                 None \<Rightarrow> None
               | Some vs \<Rightarrow> if length vs = window then Some (f vs) else None)
         [0..<length xs]"

definition rolling_slope :: "real option list \<Rightarrow> nat \<Rightarrow> real option list" where
  "rolling_slope series window = rolling_apply window (slope_calc window) series"

text \<open>Line 21: \<open>np.degrees(np.arctan(slope))\<close>, elementwise.\<close>

definition angle_from_slope :: "real option list \<Rightarrow> real option list" where
  "angle_from_slope slope = map (map_option (\<lambda>s. arctan s * 180 / pi)) slope"

text \<open>\<open>Series.diff()\<close>: the first row is undefined, row \<open>i > 0\<close> is the cell minus the
  one before it, undefined when either is.\<close>

definition diff :: "real option list \<Rightarrow> real option list" where
  "diff xs =
     map (\<lambda>i. if i = 0 then None
              else (case (xs ! i, xs ! (i - 1)) of
                      (Some a, Some b) \<Rightarrow> Some (a - b)
                    | _ \<Rightarrow> None))
         [0..<length xs]"

definition rolling_acceleration :: "real option list \<Rightarrow> nat \<Rightarrow> real option list" where
  "rolling_acceleration series window = diff (rolling_slope series window)"

text \<open>\<open>compute_ha_external_metrics\<close>: three columns for each window, in the order of
  the list \<open>windows\<close>.\<close>

definition compute_ha_external_metrics ::
    "real option dataframe \<Rightarrow> nat list \<Rightarrow> error + real option dataframe" where
  "compute_ha_external_metrics ha_df windows =
     (case map_of (df_cols ha_df) ''ha_close'' of
        None \<Rightarrow> Inl (MissingColumns [''ha_close''])
      | Some ha_close \<Rightarrow>
          Inr \<lparr>df_index = df_index ha_df,
               df_cols = concat (map (\<lambda>w.
                  let slope = rolling_slope ha_close w;
                      angle = angle_from_slope slope;
                      accel = diff slope
                  in [(''haext_slope_w'' @ digits w, slope),
                      (''haext_angle_w'' @ digits w, angle),
                      (''haext_accel_w'' @ digits w, accel)]) windows)\<rparr>)"

section \<open>Label generator (labels/labeler.py)\<close>

text \<open>A pandas \<open>Series\<close>: the index and the values.\<close>

record 'a series =
  s_index :: "int list"
  s_values :: "'a list"

text \<open>
  The prices are finite numbers, but the returns computed from them need not be: numpy
  divides by a zero base price without raising, giving an infinity or not-a-number,
  and the arrays \<open>forward_max\<close> and \<open>forward_min\<close> start out filled with
  not-a-number.  \<open>fval\<close> is a float with these three special values written out
  (the sign of a zero is not modelled: a zero base price counts as \<open>+0.0\<close>).
\<close>

datatype fval = Fin real | PInf | NInf | NaN

definition np_div :: "real \<Rightarrow> real \<Rightarrow> fval" where
  "np_div w b = (if b \<noteq> 0 then Fin (w / b) else if w > 0 then PInf else if w < 0 then NInf else NaN)"

fun fsub :: "fval \<Rightarrow> real \<Rightarrow> fval" where
  "fsub (Fin x) c = Fin (x - c)"
| "fsub PInf c = PInf"
| "fsub NInf c = NInf"
| "fsub NaN c = NaN"

text \<open>\<open>np.max\<close> and \<open>np.min\<close> propagate not-a-number.\<close>

fun fmax :: "fval \<Rightarrow> fval \<Rightarrow> fval" where
  "fmax NaN y = NaN"
| "fmax x NaN = NaN"
| "fmax PInf y = PInf"
| "fmax x PInf = PInf"
| "fmax NInf y = y"
| "fmax x NInf = x"
| "fmax (Fin a) (Fin b) = Fin (max a b)"

fun fmin :: "fval \<Rightarrow> fval \<Rightarrow> fval" where
  "fmin NaN y = NaN"
| "fmin x NaN = NaN"
| "fmin NInf y = NInf"
| "fmin x NInf = NInf"
| "fmin PInf y = y"
| "fmin x PInf = x"
| "fmin (Fin a) (Fin b) = Fin (min a b)"

definition np_max :: "fval list \<Rightarrow> fval" where
  "np_max xs = fold fmax (tl xs) (hd xs)"

definition np_min :: "fval list \<Rightarrow> fval" where
  "np_min xs = fold fmin (tl xs) (hd xs)"

text \<open>Comparisons with a finite threshold; any comparison with not-a-number is false.\<close>

fun fge :: "fval \<Rightarrow> real \<Rightarrow> bool" where
  "fge (Fin x) t = (x \<ge> t)"
| "fge PInf t = True"
| "fge NInf t = False"
| "fge NaN t = False"

fun fle :: "fval \<Rightarrow> real \<Rightarrow> bool" where
  "fle (Fin x) t = (x \<le> t)"
| "fle PInf t = False"
| "fle NInf t = True"
| "fle NaN t = False"

text \<open>Line 24 and line 27: \<open>j = min(n, i + horizon + 1)\<close> and the slice
  \<open>values[i + 1 : j]\<close>.\<close>

definition forward_window :: "real list \<Rightarrow> nat \<Rightarrow> nat \<Rightarrow> real list" where
  "forward_window values horizon i =
     (let j = min (length values) (i + horizon + 1) in drop (i + 1) (take j values))"

text \<open>Lines 28-29: \<open>rets = window / base - 1.0\<close> with \<open>base = values[i]\<close>.\<close>

definition forward_returns :: "real list \<Rightarrow> nat \<Rightarrow> nat \<Rightarrow> fval list" where
  "forward_returns values horizon i =
     map (\<lambda>w. fsub (np_div w (values ! i)) 1) (forward_window values horizon i)"

text \<open>One turn of the loop of lines 23-31, as the pair it leaves in
  \<open>forward_max[i]\<close> and \<open>forward_min[i]\<close>; the \<open>continue\<close> of line 26 leaves the
  initial not-a-number.\<close>

definition forward_extrema :: "real list \<Rightarrow> nat \<Rightarrow> nat \<Rightarrow> fval \<times> fval" where
  "forward_extrema values horizon i =
     (let j = min (length values) (i + horizon + 1) in
      if int j - int i \<le> 1 then (NaN, NaN)
      else (np_max (forward_returns values horizon i), np_min (forward_returns values horizon i)))"

definition fillna :: "real \<Rightarrow> real option list \<Rightarrow> real list" where
  "fillna v xs = map (\<lambda>x. case x of None \<Rightarrow> v | Some y \<Rightarrow> y) xs"

text \<open>
  \<open>generate_entry_exit_labels\<close>.  The comparisons of lines 33-34 give booleans,
  cast to 0.0 and 1.0; \<open>fillna(0.0)\<close> then runs over cells of which none is undefined.
\<close>

definition generate_entry_exit_labels ::
    "real series \<Rightarrow> nat \<Rightarrow> real \<Rightarrow> real \<Rightarrow> real dataframe" where
  "generate_entry_exit_labels close horizon entry_threshold exit_threshold =
     (let values = s_values close;
          n = length values;
          ext = map (forward_extrema values horizon) [0..<n];
          forward_max = map fst ext;
          forward_min = map snd ext;
          entry = map (\<lambda>m. Some (if fge m entry_threshold then 1 else 0 :: real)) forward_max;
          exit = map (\<lambda>m. Some (if fle m (- exit_threshold) then 1 else 0 :: real)) forward_min
      in \<lparr>df_index = s_index close,
          df_cols = [(''entry'', fillna 0 entry), (''exit'', fillna 0 exit)]\<rparr>)"

text \<open>The label pair of row \<open>i\<close> of a label table.\<close>

definition label_at :: "real dataframe \<Rightarrow> nat \<Rightarrow> real \<times> real" where
  "label_at labels i = (column (Inr labels) ''entry'' ! i, column (Inr labels) ''exit'' ! i)"

text \<open>A series over the default index 0, 1, ...\<close>

definition series_of :: "'a list \<Rightarrow> 'a series" where
  "series_of vs = \<lparr>s_index = map int [0..<length vs], s_values = vs\<rparr>"

section \<open>Scaler (preprocessing/normalization.py)\<close>

text \<open>
  A Python \<open>slice(start, stop)\<close> of step 1, either bound absent or any integer;
  \<open>iloc_slice\<close> is the positional row slice \<open>iloc[train_slice]\<close>: a negative bound
  counts from the end and every bound is clamped to the length.
\<close>

record py_slice =
  sl_start :: "int option"
  sl_stop :: "int option"

definition slice_bound :: "nat \<Rightarrow> int \<Rightarrow> nat" where
  "slice_bound n v = (if v < 0 then nat (max (v + int n) 0) else min (nat v) n)"

definition iloc_slice :: "py_slice \<Rightarrow> 'a list \<Rightarrow> 'a list" where
  "iloc_slice sl xs =
     (let n = length xs;
          s = (case sl_start sl of None \<Rightarrow> 0 | Some v \<Rightarrow> slice_bound n v);
          e = (case sl_stop sl of None \<Rightarrow> n | Some v \<Rightarrow> slice_bound n v)
      in drop s (take e xs))"

text \<open>
  The feature table that reaches the scaler holds defined cells only (train.py drops
  every row with an undefined value before it scales), so its cells are reals.  The
  column statistics of pandas on such cells: the mean of no rows is not-a-number, and
  the standard deviation is the sample one (\<open>ddof = 1\<close>, the default of
  \<open>DataFrame.std\<close>), not-a-number on fewer than two rows.
\<close>

definition pd_mean :: "real list \<Rightarrow> fval" where
  "pd_mean xs = (if xs = [] then NaN else Fin (sum_list xs / real (length xs)))"

definition pd_std :: "real list \<Rightarrow> fval" where
  "pd_std xs =
     (if length xs < 2 then NaN
      else let m = sum_list xs / real (length xs) in
           Fin (sqrt (sum_list (map (\<lambda>x. (x - m)\<^sup>2) xs) / real (length xs - 1))))"

text \<open>Float subtraction and division as numpy performs them on the scaled array.\<close>

fun rsub :: "real \<Rightarrow> fval \<Rightarrow> fval" where
  "rsub x (Fin m) = Fin (x - m)"
| "rsub x PInf = NInf"
| "rsub x NInf = PInf"
| "rsub x NaN = NaN"

fun fdiv :: "fval \<Rightarrow> fval \<Rightarrow> fval" where
  "fdiv NaN y = NaN"
| "fdiv x NaN = NaN"
| "fdiv (Fin a) (Fin b) = np_div a b"
| "fdiv (Fin a) y = Fin 0"
| "fdiv PInf (Fin b) = (if b < 0 then NInf else PInf)"
| "fdiv NInf (Fin b) = (if b < 0 then PInf else NInf)"
| "fdiv x y = NaN"

text \<open>
  The scaler object: its three attributes, each \<open>None\<close> until \<open>fit\<close> sets it.  (The
  attributes \<open>mean_\<close>, \<open>std_\<close> and \<open>feature_names_\<close> of the source are written with a
  prime.)  Methods take the object and return it with their result.
\<close>

record scaler =
  mean' :: "fval list option"
  std' :: "fval list option"
  feature_names' :: "string list option"

definition init :: scaler where
  "init = \<lparr>mean' = None, std' = None, feature_names' = None\<rparr>"

definition fit :: "scaler \<Rightarrow> real dataframe \<Rightarrow> py_slice \<Rightarrow> scaler" where
  "fit self features train_slice =
     (let train_data = map (\<lambda>(c, vs). iloc_slice train_slice vs) (df_cols features);
          std = map pd_std train_data
      in self\<lparr>feature_names' := Some (map fst (df_cols features)),
              mean' := Some (map pd_mean train_data),
              std' := Some (map (\<lambda>s. if s = Fin 0 then Fin 1 else s) std)\<rparr>)"

text \<open>
  numpy broadcasting of the last axis: two widths fit when they are equal or one of
  them is 1; \<open>bget\<close> reads position \<open>j\<close> of an operand stretched that way.
\<close>

definition bcast :: "nat \<Rightarrow> nat \<Rightarrow> nat option" where
  "bcast a b = (if a = b then Some a else if a = 1 then Some b else if b = 1 then Some a else None)"

definition bget :: "'a list \<Rightarrow> nat \<Rightarrow> 'a" where
  "bget xs j = (if length xs = 1 then xs ! 0 else xs ! j)"

text \<open>
  \<open>transform\<close>: the state check of lines 26-27, then \<open>(arr - mean_) / std_\<close> with
  broadcasting, then the \<open>DataFrame\<close> constructor, which raises when the number of
  names differs from the width of the array.  The object is returned as it was.
\<close>

definition transform :: "scaler \<Rightarrow> real dataframe \<Rightarrow> (error + fval dataframe) \<times> scaler" where
  "transform self features =
     (case (mean' self, std' self) of
        (Some mean, Some std) \<Rightarrow>
          (let arr = map snd (df_cols features) in
           case bcast (length arr) (length mean) of
             None \<Rightarrow> (Inl ShapeError, self)
           | Some w1 \<Rightarrow>
              (case bcast w1 (length std) of
                 None \<Rightarrow> (Inl ShapeError, self)
               | Some w \<Rightarrow>
                  (let scaled = map (\<lambda>j. map (\<lambda>x. fdiv (rsub x (bget mean j)) (bget std j))
                                             (bget arr j)) [0..<w];
                       names = (case feature_names' self of
                                  None \<Rightarrow> map digits [0..<w] | Some ns \<Rightarrow> ns)
                   in if length names \<noteq> w then (Inl ShapeError, self)
                      else (Inr \<lparr>df_index = df_index features, df_cols = zip names scaled\<rparr>,
                            self))))
      | _ \<Rightarrow> (Inl NotFitted, self))"

definition fit_transform ::
    "scaler \<Rightarrow> real dataframe \<Rightarrow> py_slice \<Rightarrow> (error + fval dataframe) \<times> scaler" where
  "fit_transform self features train_slice = transform (fit self features train_slice) features"

text \<open>A history of calls on one scaler object; a call that raises leaves the object
  to the calls after it.\<close>

datatype call = Fit "real dataframe" py_slice
  | Transform "real dataframe"
  | FitTransform "real dataframe" py_slice

fun is_fit :: "call \<Rightarrow> bool" where
  "is_fit (Fit f sl) = True"
| "is_fit (Transform f) = False"
| "is_fit (FitTransform f sl) = True"

fun do_call :: "scaler \<Rightarrow> call \<Rightarrow> scaler" where
  "do_call self (Fit f sl) = fit self f sl"
| "do_call self (Transform f) = snd (transform self f)"
| "do_call self (FitTransform f sl) = snd (fit_transform self f sl)"

definition run :: "call list \<Rightarrow> scaler" where
  "run calls = foldl do_call init calls"

text \<open>A table given by its named columns, indexed 0, 1, ...\<close>

definition frame_of :: "(string \<times> 'a list) list \<Rightarrow> 'a dataframe" where
  "frame_of cols = \<lparr>df_index = map int [0..<(case cols of [] \<Rightarrow> 0 | c # _ \<Rightarrow> length (snd c))],
                    df_cols = cols\<rparr>"

definition slice_of :: "int \<Rightarrow> int \<Rightarrow> py_slice" where
  "slice_of a b = \<lparr>sl_start = Some a, sl_stop = Some b\<rparr>"

section \<open>Sequence windower (preprocessing/window.py)\<close>

text \<open>
  numpy arrays of two and three axes: the shape and the nested rows.  \<open>wf_array2\<close> is
  the invariant that the rows fit the shape.
\<close>

record 'a array2 =
  shape2 :: "nat \<times> nat"
  data2 :: "'a list list"

record 'a array3 =
  shape3 :: "nat \<times> nat \<times> nat"
  data3 :: "'a list list list"

definition wf_array2 :: "'a array2 \<Rightarrow> bool" where
  "wf_array2 a = (length (data2 a) = fst (shape2 a) \<and>
                  list_all (\<lambda>r. length r = snd (shape2 a)) (data2 a))"

text \<open>The label argument: a one-axis array or a two-axis one.\<close>

datatype 'a labels = Labels1 "'a list" | Labels2 "'a array2"

text \<open>Line 33-34: a one-axis label array becomes a column.\<close>

fun labels_2d :: "'a labels \<Rightarrow> 'a array2" where
  "labels_2d (Labels1 xs) = \<lparr>shape2 = (length xs, 1), data2 = map (\<lambda>x. [x]) xs\<rparr>"
| "labels_2d (Labels2 a) = a"

text \<open>
  The loop of lines 25-27, with the list \<open>indices\<close> and the counter \<open>start\<close> as
  arguments.  With stride 0 it does not end while a window fits, so it is a partial
  function: \<open>None\<close> stands for a call that does not return.
\<close>

partial_function (option) window_loop ::
    "nat \<Rightarrow> nat \<Rightarrow> nat \<Rightarrow> (nat \<times> nat) list \<Rightarrow> nat \<Rightarrow> (nat \<times> nat) list option" where
  "window_loop seq_len stride num_timesteps indices start =
     (if start + seq_len \<le> num_timesteps
      then window_loop seq_len stride num_timesteps
             (indices @ [(start, start + seq_len)]) (start + stride)
      else Some indices)"

text \<open>Python's read \<open>xs[i]\<close> of one row: a negative position counts from the end.\<close>

definition py_get :: "'a list \<Rightarrow> int \<Rightarrow> error + 'a" where
  "py_get xs i =
     (if 0 \<le> i \<and> i < int (length xs) then Inr (xs ! nat i)
      else if i < 0 \<and> - int (length xs) \<le> i then Inr (xs ! nat (int (length xs) + i))
      else Inl IndexError)"

text \<open>Line 39: the slab \<open>features[s:e]\<close> transposed to (features, time), cast to the
  element type of \<open>X\<close>.\<close>

definition slab_T :: "('a \<Rightarrow> 'b) \<Rightarrow> nat \<Rightarrow> 'a list list \<Rightarrow> nat \<times> nat \<Rightarrow> 'b list list" where
  "slab_T f32 num_features rows se =
     map (\<lambda>c. map (\<lambda>r. f32 (r ! c)) (drop (fst se) (take (snd se) rows))) [0..<num_features]"

text \<open>Lines 40-41 over all windows: the label rows \<open>labels[e - 1]\<close>, or the first
  \<open>IndexError\<close>.\<close>

fun label_rows :: "('a \<Rightarrow> 'b) \<Rightarrow> 'a list list \<Rightarrow> (nat \<times> nat) list \<Rightarrow> error + 'b list list" where
  "label_rows f32 lab [] = Inr []"
| "label_rows f32 lab ((s, e) # ws) =
     (case py_get lab (int e - 1) of
        Inl err \<Rightarrow> Inl err
      | Inr row \<Rightarrow> (case label_rows f32 lab ws of
                      Inl err \<Rightarrow> Inl err
                    | Inr rest \<Rightarrow> Inr (map f32 row # rest)))"

text \<open>
  \<open>generate\<close> of a \<open>SequenceWindowGenerator\<close> with the attributes \<open>seq_len\<close> and
  \<open>stride\<close>.  \<open>f32\<close> is the cast to \<open>float32\<close> that storing into \<open>X\<close> and \<open>y\<close>
  performs.  The outer \<open>option\<close> is \<open>None\<close> when the index loop does not return.
\<close>

definition generate ::
    "('a \<Rightarrow> 'b) \<Rightarrow> nat \<Rightarrow> nat \<Rightarrow> 'a array2 \<Rightarrow> 'a labels option
       \<Rightarrow> (error + 'b array3 \<times> 'b array2 option) option" where
  "generate f32 seq_len stride features labels =
     (case window_loop seq_len stride (fst (shape2 features)) [] 0 of
        None \<Rightarrow> None
      | Some indices \<Rightarrow>
          Some (let num_features = snd (shape2 features);
                    num_samples = length indices;
                    X = \<lparr>shape3 = (num_samples, num_features, seq_len),
                         data3 = map (slab_T f32 num_features (data2 features)) indices\<rparr>
                in case labels of
                     None \<Rightarrow> Inr (X, None)
                   | Some l \<Rightarrow>
                       (let lab = labels_2d l; num_targets = snd (shape2 lab) in
                        case label_rows f32 (data2 lab) indices of
                          Inl err \<Rightarrow> Inl err
                        | Inr ys \<Rightarrow> Inr (X, Some \<lparr>shape2 = (num_samples, num_targets),
                                                   data2 = ys\<rparr>))))"

text \<open>
  The window starts in the words of the specification: \<open>0, stride, 2 * stride, ...\<close>
  while \<open>start + seq_len \<le> num_timesteps\<close>; \<open>window_count\<close> is how many there are.
\<close>

definition window_count :: "nat \<Rightarrow> nat \<Rightarrow> nat \<Rightarrow> nat" where
  "window_count seq_len stride num_timesteps =
     (if seq_len \<le> num_timesteps then (num_timesteps - seq_len) div stride + 1 else 0)"

definition window_starts_spec :: "nat \<Rightarrow> nat \<Rightarrow> nat \<Rightarrow> nat list" where
  "window_starts_spec seq_len stride num_timesteps =
     map (\<lambda>k. k * stride) [0..<window_count seq_len stride num_timesteps]"

text \<open>An array of two axes from its rows.\<close>

definition array2_of :: "nat \<Rightarrow> 'a list list \<Rightarrow> 'a array2" where
  "array2_of ncols rows = \<lparr>shape2 = (length rows, ncols), data2 = rows\<rparr>"

section \<open>Temporal convolutional network (models/tcn.py)\<close>

text \<open>
  One sample of a batch is a list of channels, each a list over time; a batch is a
  list of samples, and every layer acts on each sample by itself.  The layers of
  torch that the source composes are written out from their documented meaning:
  \<open>Conv1d\<close> is the cross-correlation with zero padding on both sides, \<open>ReLU\<close> the
  maximum with 0, and \<open>Dropout\<close> the identity, the network being in evaluation mode.
  The weights, which torch draws at construction and training changes, are given to
  the constructors.
\<close>

type_synonym sample = "real list list"

definition time_len :: "sample \<Rightarrow> nat" where
  "time_len x = (case x of [] \<Rightarrow> 0 | ch # _ \<Rightarrow> length ch)"

text \<open>Running a layer that may fail on the result of one before it.\<close>

definition and_then :: "error + 'a \<Rightarrow> ('a \<Rightarrow> error + 'b) \<Rightarrow> error + 'b" where
  "and_then r f = (case r of Inl e \<Rightarrow> Inl e | Inr v \<Rightarrow> f v)"

subsection \<open>Chomp1d\<close>

text \<open>Lines 12-15: \<open>x[:, :, :-chomp_size]\<close>, on one sample; a chomp size beyond the
  length leaves nothing.\<close>

definition Chomp1d_forward :: "nat \<Rightarrow> sample \<Rightarrow> sample" where
  "Chomp1d_forward chomp_size x =
     (if chomp_size = 0 then x else map (\<lambda>ch. take (length ch - chomp_size) ch) x)"

subsection \<open>The layers of torch\<close>

record conv1d =
  cv_in_channels :: nat
  cv_out_channels :: nat
  cv_kernel_size :: nat
  cv_stride :: nat
  cv_padding :: nat
  cv_dilation :: nat
  cv_weight :: "real list list list"
  cv_bias :: "real list"

definition pad1d :: "nat \<Rightarrow> real list \<Rightarrow> real list" where
  "pad1d p ch = replicate p 0 @ ch @ replicate p 0"

text \<open>One output cell: the bias plus, over the input channels and the kernel taps,
  weight times the padded input at \<open>t * stride + j * dilation\<close>.\<close>

definition conv_cell :: "conv1d \<Rightarrow> sample \<Rightarrow> nat \<Rightarrow> nat \<Rightarrow> real" where
  "conv_cell m xp oc t =
     cv_bias m ! oc +
     sum_list (map (\<lambda>c. sum_list (map (\<lambda>j. cv_weight m ! oc ! c ! j
                                            * xp ! c ! (t * cv_stride m + j * cv_dilation m))
                                    [0..<cv_kernel_size m]))
                   [0..<cv_in_channels m])"

text \<open>
  \<open>Conv1d.forward\<close> on one sample.  torch raises when the channels of the input are
  not those of the layer, and when the padded input is shorter than the span
  \<open>dilation * (kernel_size - 1) + 1\<close> of the kernel; a kernel size or stride of 0 is
  rejected as well.  The output has
  \<open>(L + 2 * padding - dilation * (kernel_size - 1) - 1) div stride + 1\<close> timesteps.
\<close>

definition conv1d_forward :: "conv1d \<Rightarrow> sample \<Rightarrow> error + sample" where
  "conv1d_forward m x =
     (let L = time_len x; k = cv_kernel_size m; d = cv_dilation m; p = cv_padding m in
      if k = 0 \<or> cv_stride m = 0 \<or> length x \<noteq> cv_in_channels m \<or> L + 2 * p < d * (k - 1) + 1
      then Inl ShapeError
      else let xp = map (pad1d p) x;
               L_out = (L + 2 * p - d * (k - 1) - 1) div cv_stride m + 1
           in Inr (map (\<lambda>oc. map (conv_cell m xp oc) [0..<L_out]) [0..<cv_out_channels m]))"

definition relu :: "sample \<Rightarrow> sample" where
  "relu x = map (map (max 0)) x"

definition dropout_eval :: "sample \<Rightarrow> sample" where
  "dropout_eval x = x"

text \<open>The sum \<open>out + res\<close> of line 73, with the broadcasting of torch: two axes fit
  when they are equal or one of them has length 1.\<close>

definition add_bc :: "sample \<Rightarrow> sample \<Rightarrow> error + sample" where
  "add_bc a b =
     (case (bcast (length a) (length b), bcast (time_len a) (time_len b)) of
        (Some C, Some L) \<Rightarrow>
          Inr (map (\<lambda>c. map (\<lambda>t. bget (bget a c) t + bget (bget b c) t) [0..<L]) [0..<C])
      | _ \<Rightarrow> Inl ShapeError)"

subsection \<open>TemporalBlock\<close>

text \<open>The weights of one block: of \<open>conv1\<close>, of \<open>conv2\<close> and of the 1x1 projection
  \<open>downsample\<close>.\<close>

record block_params =
  w1 :: "real list list list"
  b1 :: "real list"
  w2 :: "real list list list"
  b2 :: "real list"
  wd :: "real list list list"
  bd :: "real list"

record temporal_block =
  conv1 :: conv1d
  chomp1 :: nat
  conv2 :: conv1d
  chomp2 :: nat
  downsample :: "conv1d option"

text \<open>Lines 19-59: the constructor.  \<open>Conv1d\<close> without further arguments has stride
  1, padding 0 and dilation 1.\<close>

definition TemporalBlock ::
    "nat \<Rightarrow> nat \<Rightarrow> nat \<Rightarrow> nat \<Rightarrow> nat \<Rightarrow> nat \<Rightarrow> block_params \<Rightarrow> temporal_block" where
  "TemporalBlock in_channels out_channels kernel_size stride dilation padding \<theta> =
     \<lparr>conv1 = \<lparr>cv_in_channels = in_channels, cv_out_channels = out_channels,
                cv_kernel_size = kernel_size, cv_stride = stride, cv_padding = padding,
                cv_dilation = dilation, cv_weight = w1 \<theta>, cv_bias = b1 \<theta>\<rparr>,
      chomp1 = padding,
      conv2 = \<lparr>cv_in_channels = out_channels, cv_out_channels = out_channels,
                cv_kernel_size = kernel_size, cv_stride = stride, cv_padding = padding,
                cv_dilation = dilation, cv_weight = w2 \<theta>, cv_bias = b2 \<theta>\<rparr>,
      chomp2 = padding,
      downsample =
        (if in_channels \<noteq> out_channels
         then Some \<lparr>cv_in_channels = in_channels, cv_out_channels = out_channels,
                    cv_kernel_size = 1, cv_stride = 1, cv_padding = 0, cv_dilation = 1,
                    cv_weight = wd \<theta>, cv_bias = bd \<theta>\<rparr>
         else None)\<rparr>"

text \<open>Lines 61-73: the forward pass of a block, and the values it passes through on
  the way, in the order the source computes them, the output last.\<close>

definition block_stage1 :: "temporal_block \<Rightarrow> sample \<Rightarrow> error + sample" where
  "block_stage1 blk x =
     and_then (conv1d_forward (conv1 blk) x)
       (\<lambda>out. Inr (dropout_eval (relu (Chomp1d_forward (chomp1 blk) out))))"

definition block_stage2 :: "temporal_block \<Rightarrow> sample \<Rightarrow> error + sample" where
  "block_stage2 blk out =
     and_then (conv1d_forward (conv2 blk) out)
       (\<lambda>out. Inr (dropout_eval (relu (Chomp1d_forward (chomp2 blk) out))))"

definition block_res :: "temporal_block \<Rightarrow> sample \<Rightarrow> error + sample" where
  "block_res blk x =
     (case downsample blk of None \<Rightarrow> Inr x | Some ds \<Rightarrow> conv1d_forward ds x)"

definition TemporalBlock_forward :: "temporal_block \<Rightarrow> sample \<Rightarrow> error + sample" where
  "TemporalBlock_forward blk x =
     and_then (block_stage1 blk x) (\<lambda>out.
     and_then (block_stage2 blk out) (\<lambda>out.
     and_then (block_res blk x) (\<lambda>res.
     and_then (add_bc out res) (\<lambda>s. Inr (relu s)))))"

definition TemporalBlock_activations :: "temporal_block \<Rightarrow> sample \<Rightarrow> error + sample list" where
  "TemporalBlock_activations blk x =
     and_then (conv1d_forward (conv1 blk) x) (\<lambda>a1.
     and_then (block_stage1 blk x) (\<lambda>out1.
     and_then (conv1d_forward (conv2 blk) out1) (\<lambda>a2.
     and_then (block_stage2 blk out1) (\<lambda>out2.
     and_then (block_res blk x) (\<lambda>res.
     and_then (add_bc out2 res) (\<lambda>s.
       Inr [a1, Chomp1d_forward (chomp1 blk) a1, out1,
            a2, Chomp1d_forward (chomp2 blk) a2, out2, res, s, relu s]))))))"

subsection \<open>TCNBackbone\<close>

text \<open>Lines 85-104: the loop of the constructor, \<open>i\<close> the level and \<open>in_ch\<close> the
  channels coming in; \<open>\<theta> i\<close> are the weights of level \<open>i\<close>.  (For kernel size 0 the
  padding of the source is negative and torch refuses the layer; here the padding is 0
  and the convolution refuses the kernel size.)\<close>

fun backbone_layers ::
    "nat \<Rightarrow> nat \<Rightarrow> nat \<Rightarrow> nat list \<Rightarrow> (nat \<Rightarrow> block_params) \<Rightarrow> temporal_block list" where
  "backbone_layers kernel_size i in_ch [] \<theta> = []"
| "backbone_layers kernel_size i in_ch (out_ch # rest) \<theta> =
     TemporalBlock in_ch out_ch kernel_size 1 (2 ^ i) ((kernel_size - 1) * 2 ^ i) (\<theta> i)
       # backbone_layers kernel_size (Suc i) out_ch rest \<theta>"

definition TCNBackbone ::
    "nat \<Rightarrow> nat list \<Rightarrow> nat \<Rightarrow> (nat \<Rightarrow> block_params) \<Rightarrow> temporal_block list" where
  "TCNBackbone num_features num_channels kernel_size \<theta> =
     backbone_layers kernel_size 0 num_features num_channels \<theta>"

text \<open>Line 107: \<open>nn.Sequential\<close> runs the blocks in order.  The second function
  collects the values passed through in all blocks.\<close>

fun TCNBackbone_forward :: "temporal_block list \<Rightarrow> sample \<Rightarrow> error + sample" where
  "TCNBackbone_forward [] x = Inr x"
| "TCNBackbone_forward (blk # network) x =
     and_then (TemporalBlock_forward blk x) (TCNBackbone_forward network)"

fun TCNBackbone_activations :: "temporal_block list \<Rightarrow> sample \<Rightarrow> error + sample list" where
  "TCNBackbone_activations [] x = Inr []"
| "TCNBackbone_activations (blk # network) x =
     and_then (TemporalBlock_activations blk x) (\<lambda>acts.
     and_then (TemporalBlock_forward blk x) (\<lambda>y.
     and_then (TCNBackbone_activations network y) (\<lambda>rest. Inr (acts @ rest))))"

text \<open>
  The shape of a sample, and agreement of two samples of one shape on the timesteps
  before \<open>n\<close>.
\<close>

definition has_shape :: "nat \<Rightarrow> nat \<Rightarrow> sample \<Rightarrow> bool" where
  "has_shape C L x = (length x = C \<and> list_all (\<lambda>ch. length ch = L) x)"

definition agree_before :: "nat \<Rightarrow> sample \<Rightarrow> sample \<Rightarrow> bool" where
  "agree_before n x y = (map (take n) x = map (take n) y)"

text \<open>A convolution as the backbone builds it: stride 1 and a padding of
  \<open>(kernel_size - 1) * dilation\<close>, with at least one input channel and one tap.\<close>

definition causal_conv :: "conv1d \<Rightarrow> bool" where
  "causal_conv m = (1 \<le> cv_in_channels m \<and> 1 \<le> cv_kernel_size m \<and> cv_stride m = 1 \<and>
                    cv_padding m = (cv_kernel_size m - 1) * cv_dilation m)"

text \<open>Weights for a small network of one input feature and two blocks of two
  channels with kernel size 3, used in the examples.\<close>

definition example_params :: "nat \<Rightarrow> block_params" where
  "example_params i =
     (if i = 0
      then \<lparr>w1 = [[[1, 2, 3]], [[0, 1, - 1]]], b1 = [0, 1],
            w2 = [[[1, 0, 1], [2, 1, 0]], [[1, 1, 1], [0, - 1, 1]]], b2 = [1, 0],
            wd = [[[1]], [[2]]], bd = [0, 0]\<rparr>
      else \<lparr>w1 = [[[1, 0, 1], [0, 1, 0]], [[1, - 1, 1], [1, 0, 2]]], b1 = [0, 0],
            w2 = [[[0, 0, 1], [1, 0, 0]], [[1, 0, 0], [0, 0, 1]]], b2 = [0, 1],
            wd = [], bd = []\<rparr>)"

chapter \<open>Properties\<close>

section \<open>Heikin-Ashi transform\<close>

lemma length_ha_open_loop: "length (ha_open_loop prev cs) = length cs"
  by (induction cs arbitrary: prev) (simp_all add: Let_def)

lemma ha_open_loop_step:
  "i < length cs \<Longrightarrow>
   (prev # ha_open_loop prev cs) ! Suc i = ((prev # ha_open_loop prev cs) ! i + cs ! i) / 2"
proof (induction cs arbitrary: prev i)
  case Nil
  then show ?case by simp
next
  case (Cons c cs)
  show ?case
  proof (cases i)
    case 0
    then show ?thesis by (simp add: Let_def)
  next
    case (Suc j)
    with Cons.prems have "j < length cs" by simp
    from Cons.IH [OF this, of "(prev + c) / 2"] Suc show ?thesis
      by (simp add: Let_def)
  qed
qed

lemma length_ha_close_col: "length (ha_close_col op hi lo cl n) = n"
  by (simp add: ha_close_col_def)

lemma ha_close_col_nth:
  "i < n \<Longrightarrow> ha_close_col op hi lo cl n ! i = (op ! i + hi ! i + lo ! i + cl ! i) / 4"
  by (simp add: ha_close_col_def)

lemma length_ha_open_col:
  "0 < n \<Longrightarrow> length (ha_open_col op cl (ha_close_col op hi lo cl n)) = n"
  by (simp add: ha_open_col_def length_ha_open_loop length_ha_close_col)

lemma ha_open_col_0: "ha_open_col op cl hc ! 0 = (op ! 0 + cl ! 0) / 2"
  by (simp add: ha_open_col_def)

lemma ha_open_col_Suc:
  assumes "Suc i < length hc"
  shows "ha_open_col op cl hc ! Suc i = (ha_open_col op cl hc ! i + hc ! i) / 2"
proof -
  from assms have len: "i < length (butlast hc)" by simp
  then have "butlast hc ! i = hc ! i"
    by (simp add: nth_butlast)
  with ha_open_loop_step [OF len, of "(op ! 0 + cl ! 0) / 2"] show ?thesis
    by (simp add: ha_open_col_def)
qed

lemma compute_heikin_ashi_ok:
  assumes "map_of (df_cols ohlcv) ''open'' = Some op"
    and "map_of (df_cols ohlcv) ''high'' = Some hi"
    and "map_of (df_cols ohlcv) ''low'' = Some lo"
    and "map_of (df_cols ohlcv) ''close'' = Some cl"
    and "n = length (df_index ohlcv)" and "n \<noteq> 0"
    and "hc = ha_close_col op hi lo cl n" and "ho = ha_open_col op cl hc"
  shows "compute_heikin_ashi ohlcv =
       Inr \<lparr>df_index = df_index ohlcv,
            df_cols = [(''ha_close'', hc), (''ha_open'', ho),
               (''ha_high'', map (\<lambda>i. max (max (hi ! i) (ho ! i)) (hc ! i)) [0..<n]),
               (''ha_low'', map (\<lambda>i. min (min (lo ! i) (ho ! i)) (hc ! i)) [0..<n])]\<rparr>"
  using assms by (simp add: compute_heikin_ashi_def Let_def)

text \<open>
  C4 (Heikin-Ashi definition).  On every table that has the four raw columns and
  \<open>n \<ge> 1\<close> rows the call succeeds and keeps the index; \<open>ha_close[i]\<close> is the mean of
  the four raw cells of row \<open>i\<close> alone, \<open>ha_open[0]\<close> is the mean of \<open>open[0]\<close> and
  \<open>close[0]\<close>, and \<open>ha_open[i]\<close> for \<open>i > 0\<close> is the mean of \<open>ha_open[i - 1]\<close> and
  \<open>ha_close[i - 1]\<close>.  On the three-row fixture this gives
  \<open>ha_close = [10.5, 11.5, 12.5]\<close> and \<open>ha_open = [10.5, 10.5, 11.0]\<close>.
\<close>

theorem heikin_ashi_definition:
  "(\<forall>ohlcv op hi lo cl n.
      wf_df ohlcv \<and> map_of (df_cols ohlcv) ''open'' = Some op \<and>
      map_of (df_cols ohlcv) ''high'' = Some hi \<and> map_of (df_cols ohlcv) ''low'' = Some lo \<and>
      map_of (df_cols ohlcv) ''close'' = Some cl \<and> n = length (df_index ohlcv) \<and> 1 \<le> n \<longrightarrow>
      (\<exists>ha. compute_heikin_ashi ohlcv = Inr ha \<and> df_index ha = df_index ohlcv) \<and>
      length (column (compute_heikin_ashi ohlcv) ''ha_close'') = n \<and>
      length (column (compute_heikin_ashi ohlcv) ''ha_open'') = n \<and>
      (\<forall>i<n. column (compute_heikin_ashi ohlcv) ''ha_close'' ! i
                = (op ! i + hi ! i + lo ! i + cl ! i) / 4) \<and>
      column (compute_heikin_ashi ohlcv) ''ha_open'' ! 0 = (op ! 0 + cl ! 0) / 2 \<and>
      (\<forall>i. 0 < i \<and> i < n \<longrightarrow>
         column (compute_heikin_ashi ohlcv) ''ha_open'' ! i
           = (column (compute_heikin_ashi ohlcv) ''ha_open'' ! (i - 1)
              + column (compute_heikin_ashi ohlcv) ''ha_close'' ! (i - 1)) / 2)) \<and>
   column (compute_heikin_ashi (ohlc_frame [(10, 12, 9, 11), (11, 13, 10, 12), (12, 14, 11, 13)]))
      ''ha_close'' = [10.5, 11.5, 12.5] \<and>
   column (compute_heikin_ashi (ohlc_frame [(10, 12, 9, 11), (11, 13, 10, 12), (12, 14, 11, 13)]))
      ''ha_open'' = [10.5, 10.5, 11.0]"
proof (intro conjI allI impI)
  show "column (compute_heikin_ashi (ohlc_frame [(10, 12, 9, 11), (11, 13, 10, 12), (12, 14, 11, 13)]))
      ''ha_close'' = [10.5, 11.5, 12.5]"
    by code_simp
  show "column (compute_heikin_ashi (ohlc_frame [(10, 12, 9, 11), (11, 13, 10, 12), (12, 14, 11, 13)]))
      ''ha_open'' = [10.5, 10.5, 11.0]"
    by code_simp
next
  fix ohlcv :: "real dataframe" and op hi lo cl :: "real list" and n :: nat
  assume h: "wf_df ohlcv \<and> map_of (df_cols ohlcv) ''open'' = Some op \<and>
      map_of (df_cols ohlcv) ''high'' = Some hi \<and> map_of (df_cols ohlcv) ''low'' = Some lo \<and>
      map_of (df_cols ohlcv) ''close'' = Some cl \<and> n = length (df_index ohlcv) \<and> 1 \<le> n"
  then have n: "n \<noteq> 0" "0 < n" by auto
  define hc where "hc = ha_close_col op hi lo cl n"
  define ho where "ho = ha_open_col op cl hc"
  from h n hc_def ho_def have r: "compute_heikin_ashi ohlcv =
       Inr \<lparr>df_index = df_index ohlcv,
            df_cols = [(''ha_close'', hc), (''ha_open'', ho),
               (''ha_high'', map (\<lambda>i. max (max (hi ! i) (ho ! i)) (hc ! i)) [0..<n]),
               (''ha_low'', map (\<lambda>i. min (min (lo ! i) (ho ! i)) (hc ! i)) [0..<n])]\<rparr>"
    by (intro compute_heikin_ashi_ok [of ohlcv op hi lo cl n]) auto
  have c: "column (compute_heikin_ashi ohlcv) ''ha_close'' = hc"
    and o: "column (compute_heikin_ashi ohlcv) ''ha_open'' = ho"
    by (simp_all add: r column_def)
  have lc: "length hc = n"
    by (simp add: hc_def length_ha_close_col)
  show "\<exists>ha. compute_heikin_ashi ohlcv = Inr ha \<and> df_index ha = df_index ohlcv"
    by (simp add: r)
  show "length (column (compute_heikin_ashi ohlcv) ''ha_close'') = n"
    by (simp add: c lc)
  show "length (column (compute_heikin_ashi ohlcv) ''ha_open'') = n"
    using n by (simp add: o ho_def hc_def length_ha_open_col)
  show "column (compute_heikin_ashi ohlcv) ''ha_open'' ! 0 = (op ! 0 + cl ! 0) / 2"
    by (simp add: o ho_def ha_open_col_0)
  {
    fix i assume "i < n"
    then show "column (compute_heikin_ashi ohlcv) ''ha_close'' ! i
                = (op ! i + hi ! i + lo ! i + cl ! i) / 4"
      by (simp add: c hc_def ha_close_col_nth)
  }
  {
    fix i assume "0 < i \<and> i < n"
    then obtain j where j: "i = Suc j" "Suc j < length hc"
      using lc by (cases i) auto
    then show "column (compute_heikin_ashi ohlcv) ''ha_open'' ! i
           = (column (compute_heikin_ashi ohlcv) ''ha_open'' ! (i - 1)
              + column (compute_heikin_ashi ohlcv) ''ha_close'' ! (i - 1)) / 2"
      by (simp add: c o ho_def ha_open_col_Suc)
  }
qed

theorem heikin_ashi_definition_witness:
  "wf_df (ohlc_frame [(10, 12, 9, 11), (11, 13, 10, 12), (12, 14, 11, 13)]) \<and>
   map_of (df_cols (ohlc_frame [(10, 12, 9, 11), (11, 13, 10, 12), (12, 14, 11, 13)])) ''open''
     = Some [10, 11, 12] \<and>
   map_of (df_cols (ohlc_frame [(10, 12, 9, 11), (11, 13, 10, 12), (12, 14, 11, 13)])) ''high''
     = Some [12, 13, 14] \<and>
   map_of (df_cols (ohlc_frame [(10, 12, 9, 11), (11, 13, 10, 12), (12, 14, 11, 13)])) ''low''
     = Some [9, 10, 11] \<and>
   map_of (df_cols (ohlc_frame [(10, 12, 9, 11), (11, 13, 10, 12), (12, 14, 11, 13)])) ''close''
     = Some [11, 12, 13] \<and>
   (3::nat) = length (df_index (ohlc_frame [(10, 12, 9, 11), (11, 13, 10, 12), (12, 14, 11, 13)])) \<and>
   (1::nat) \<le> 3 \<and>
   (\<exists>ha. compute_heikin_ashi (ohlc_frame [(10, 12, 9, 11), (11, 13, 10, 12), (12, 14, 11, 13)])
            = Inr ha) \<and>
   column (compute_heikin_ashi
             (ohlc_frame [(10, 12, 9, 11), (11, 13, 10, 12), (12, 14, 11, 13)])) ''ha_close'' ! 1
     = (11 + 13 + 10 + 12) / 4 \<and>
   column (compute_heikin_ashi
             (ohlc_frame [(10, 12, 9, 11), (11, 13, 10, 12), (12, 14, 11, 13)])) ''ha_open'' ! 2
     = (column (compute_heikin_ashi
             (ohlc_frame [(10, 12, 9, 11), (11, 13, 10, 12), (12, 14, 11, 13)])) ''ha_open'' ! 1
        + column (compute_heikin_ashi
             (ohlc_frame [(10, 12, 9, 11), (11, 13, 10, 12), (12, 14, 11, 13)])) ''ha_close'' ! 1) / 2"
proof -
  have h: "wf_df (ohlc_frame [(10, 12, 9, 11), (11, 13, 10, 12), (12, 14, 11, 13)]) \<and>
   map_of (df_cols (ohlc_frame [(10, 12, 9, 11), (11, 13, 10, 12), (12, 14, 11, 13)])) ''open''
     = Some [10, 11, 12] \<and>
   map_of (df_cols (ohlc_frame [(10, 12, 9, 11), (11, 13, 10, 12), (12, 14, 11, 13)])) ''high''
     = Some [12, 13, 14] \<and>
   map_of (df_cols (ohlc_frame [(10, 12, 9, 11), (11, 13, 10, 12), (12, 14, 11, 13)])) ''low''
     = Some [9, 10, 11] \<and>
   map_of (df_cols (ohlc_frame [(10, 12, 9, 11), (11, 13, 10, 12), (12, 14, 11, 13)])) ''close''
     = Some [11, 12, 13] \<and>
   (3::nat) = length (df_index (ohlc_frame [(10, 12, 9, 11), (11, 13, 10, 12), (12, 14, 11, 13)])) \<and>
   (1::nat) \<le> 3"
    by code_simp
  note t = heikin_ashi_definition [THEN conjunct1, rule_format, OF h]
  from t have ex: "\<exists>ha. compute_heikin_ashi
      (ohlc_frame [(10, 12, 9, 11), (11, 13, 10, 12), (12, 14, 11, 13)]) = Inr ha"
    by blast
  from t have "\<forall>i<3. column (compute_heikin_ashi
             (ohlc_frame [(10, 12, 9, 11), (11, 13, 10, 12), (12, 14, 11, 13)])) ''ha_close'' ! i
     = ([10, 11, 12] ! i + [12, 13, 14] ! i + [9, 10, 11] ! i + [11, 12, 13] ! i) / 4"
    by blast
  from this [rule_format, of 1] have c: "column (compute_heikin_ashi
             (ohlc_frame [(10, 12, 9, 11), (11, 13, 10, 12), (12, 14, 11, 13)])) ''ha_close'' ! 1
     = (11 + 13 + 10 + 12) / 4"
    by simp
  from t have "\<forall>i. 0 < i \<and> i < 3 \<longrightarrow>
      column (compute_heikin_ashi
                (ohlc_frame [(10, 12, 9, 11), (11, 13, 10, 12), (12, 14, 11, 13)])) ''ha_open'' ! i
        = (column (compute_heikin_ashi
                (ohlc_frame [(10, 12, 9, 11), (11, 13, 10, 12), (12, 14, 11, 13)])) ''ha_open'' ! (i - 1)
           + column (compute_heikin_ashi
                (ohlc_frame [(10, 12, 9, 11), (11, 13, 10, 12), (12, 14, 11, 13)])) ''ha_close'' ! (i - 1)) / 2"
    by blast
  from this [rule_format, of 2] have o: "column (compute_heikin_ashi
             (ohlc_frame [(10, 12, 9, 11), (11, 13, 10, 12), (12, 14, 11, 13)])) ''ha_open'' ! 2
     = (column (compute_heikin_ashi
             (ohlc_frame [(10, 12, 9, 11), (11, 13, 10, 12), (12, 14, 11, 13)])) ''ha_open'' ! 1
        + column (compute_heikin_ashi
             (ohlc_frame [(10, 12, 9, 11), (11, 13, 10, 12), (12, 14, 11, 13)])) ''ha_close'' ! 1) / 2"
    by simp
  from h ex c o show ?thesis
    by blast
qed

text \<open>
  C10 (Heikin-Ashi bars enclose their open and close).  On every table with the four
  raw columns and at least one row, \<open>ha_high[i]\<close> is the maximum of \<open>high[i]\<close>,
  \<open>ha_open[i]\<close> and \<open>ha_close[i]\<close>, hence at least each of them, and \<open>ha_low[i]\<close> is
  the minimum of \<open>low[i]\<close>, \<open>ha_open[i]\<close> and \<open>ha_close[i]\<close>, hence at most each of
  them.  Nothing is assumed about the raw bar, so this holds also where the raw high
  lies below the raw open or close.
\<close>

theorem heikin_ashi_encloses:
  assumes "wf_df ohlcv"
    and "map_of (df_cols ohlcv) ''open'' = Some op"
    and "map_of (df_cols ohlcv) ''high'' = Some hi"
    and "map_of (df_cols ohlcv) ''low'' = Some lo"
    and "map_of (df_cols ohlcv) ''close'' = Some cl"
    and "i < length (df_index ohlcv)"
  shows "column (compute_heikin_ashi ohlcv) ''ha_high'' ! i
           = Max {hi ! i, column (compute_heikin_ashi ohlcv) ''ha_open'' ! i,
                  column (compute_heikin_ashi ohlcv) ''ha_close'' ! i} \<and>
         column (compute_heikin_ashi ohlcv) ''ha_high'' ! i \<ge> hi ! i \<and>
         column (compute_heikin_ashi ohlcv) ''ha_high'' ! i
           \<ge> column (compute_heikin_ashi ohlcv) ''ha_open'' ! i \<and>
         column (compute_heikin_ashi ohlcv) ''ha_high'' ! i
           \<ge> column (compute_heikin_ashi ohlcv) ''ha_close'' ! i \<and>
         column (compute_heikin_ashi ohlcv) ''ha_low'' ! i
           = Min {lo ! i, column (compute_heikin_ashi ohlcv) ''ha_open'' ! i,
                  column (compute_heikin_ashi ohlcv) ''ha_close'' ! i} \<and>
         column (compute_heikin_ashi ohlcv) ''ha_low'' ! i \<le> lo ! i \<and>
         column (compute_heikin_ashi ohlcv) ''ha_low'' ! i
           \<le> column (compute_heikin_ashi ohlcv) ''ha_open'' ! i \<and>
         column (compute_heikin_ashi ohlcv) ''ha_low'' ! i
           \<le> column (compute_heikin_ashi ohlcv) ''ha_close'' ! i"
proof -
  define n where "n = length (df_index ohlcv)"
  define hc where "hc = ha_close_col op hi lo cl n"
  define ho where "ho = ha_open_col op cl hc"
  from assms n_def have n: "n \<noteq> 0" "i < n" by auto
  have r: "compute_heikin_ashi ohlcv =
       Inr \<lparr>df_index = df_index ohlcv,
            df_cols = [(''ha_close'', hc), (''ha_open'', ho),
               (''ha_high'', map (\<lambda>i. max (max (hi ! i) (ho ! i)) (hc ! i)) [0..<n]),
               (''ha_low'', map (\<lambda>i. min (min (lo ! i) (ho ! i)) (hc ! i)) [0..<n])]\<rparr>"
    using assms n n_def hc_def ho_def
    by (intro compute_heikin_ashi_ok [of ohlcv op hi lo cl n]) auto
  have c: "column (compute_heikin_ashi ohlcv) ''ha_close'' = hc"
    and o: "column (compute_heikin_ashi ohlcv) ''ha_open'' = ho"
    and h: "column (compute_heikin_ashi ohlcv) ''ha_high'' ! i = max (max (hi ! i) (ho ! i)) (hc ! i)"
    and l: "column (compute_heikin_ashi ohlcv) ''ha_low'' ! i = min (min (lo ! i) (ho ! i)) (hc ! i)"
    using n by (simp_all add: r column_def)
  show ?thesis
    unfolding c o h l by auto
qed

theorem heikin_ashi_encloses_witness:
  "wf_df (ohlc_frame [(10, 9, 12, 11), (11, 13, 10, 12)]) \<and>
   map_of (df_cols (ohlc_frame [(10, 9, 12, 11), (11, 13, 10, 12)])) ''open'' = Some [10, 11] \<and>
   map_of (df_cols (ohlc_frame [(10, 9, 12, 11), (11, 13, 10, 12)])) ''high'' = Some [9, 13] \<and>
   map_of (df_cols (ohlc_frame [(10, 9, 12, 11), (11, 13, 10, 12)])) ''low'' = Some [12, 10] \<and>
   map_of (df_cols (ohlc_frame [(10, 9, 12, 11), (11, 13, 10, 12)])) ''close'' = Some [11, 12] \<and>
   (0::nat) < length (df_index (ohlc_frame [(10, 9, 12, 11), (11, 13, 10, 12)])) \<and>
   column (compute_heikin_ashi (ohlc_frame [(10, 9, 12, 11), (11, 13, 10, 12)])) ''ha_high'' ! 0
     \<ge> column (compute_heikin_ashi (ohlc_frame [(10, 9, 12, 11), (11, 13, 10, 12)])) ''ha_open'' ! 0 \<and>
   column (compute_heikin_ashi (ohlc_frame [(10, 9, 12, 11), (11, 13, 10, 12)])) ''ha_low'' ! 0
     \<le> column (compute_heikin_ashi (ohlc_frame [(10, 9, 12, 11), (11, 13, 10, 12)])) ''ha_close'' ! 0"
proof -
  have h: "wf_df (ohlc_frame [(10, 9, 12, 11), (11, 13, 10, 12)])"
    "map_of (df_cols (ohlc_frame [(10, 9, 12, 11), (11, 13, 10, 12)])) ''open'' = Some [10, 11]"
    "map_of (df_cols (ohlc_frame [(10, 9, 12, 11), (11, 13, 10, 12)])) ''high'' = Some [9, 13]"
    "map_of (df_cols (ohlc_frame [(10, 9, 12, 11), (11, 13, 10, 12)])) ''low'' = Some [12, 10]"
    "map_of (df_cols (ohlc_frame [(10, 9, 12, 11), (11, 13, 10, 12)])) ''close'' = Some [11, 12]"
    "(0::nat) < length (df_index (ohlc_frame [(10, 9, 12, 11), (11, 13, 10, 12)]))"
    by code_simp+
  from heikin_ashi_encloses [OF h] h show ?thesis
    by blast
qed

section \<open>Label generator\<close>

lemma length_forward_window:
  "length (forward_window values horizon i) = min (length values) (i + horizon + 1) - (i + 1)"
  by (simp add: forward_window_def Let_def)

lemma forward_window_slice:
  "forward_window values horizon i = tl (drop i (take (i + horizon + 1) values))"
proof -
  have "take (min (length values) (i + horizon + 1)) values = take (i + horizon + 1) values"
    by (simp add: min_def)
  then show ?thesis
    by (simp add: forward_window_def Let_def drop_Suc tl_drop)
qed

lemma anchor_slice:
  assumes "i < length values"
  shows "values ! i = hd (drop i (take (i + horizon + 1) values))"
proof -
  from assms have "i < length (take (i + horizon + 1) values)" by simp
  then have "hd (drop i (take (i + horizon + 1) values)) = take (i + horizon + 1) values ! i"
    by (rule hd_drop_conv_nth)
  then show ?thesis by simp
qed

lemma forward_extrema_alt:
  "forward_extrema values horizon i =
     (if forward_window values horizon i = [] then (NaN, NaN)
      else (np_max (forward_returns values horizon i), np_min (forward_returns values horizon i)))"
proof -
  have "(int (min (length values) (i + horizon + 1)) - int i \<le> 1)
          = (forward_window values horizon i = [])"
    unfolding length_0_conv [symmetric] length_forward_window by auto
  then show ?thesis
    by (simp add: forward_extrema_def Let_def)
qed

lemma forward_extrema_cong:
  assumes "i < length a" and "i < length b"
    and "drop i (take (i + horizon + 1) a) = drop i (take (i + horizon + 1) b)"
  shows "forward_extrema a horizon i = forward_extrema b horizon i"
proof -
  from assms(3) have w: "forward_window a horizon i = forward_window b horizon i"
    by (simp add: forward_window_slice)
  from assms have "a ! i = b ! i"
    by (simp add: anchor_slice [of i _ horizon])
  with w have "forward_returns a horizon i = forward_returns b horizon i"
    by (simp add: forward_returns_def)
  with w show ?thesis
    by (simp add: forward_extrema_alt)
qed

lemma label_at_generate:
  assumes "i < length (s_values close)"
  shows "label_at (generate_entry_exit_labels close horizon et xt) i =
     (if fge (fst (forward_extrema (s_values close) horizon i)) et then 1 else 0,
      if fle (snd (forward_extrema (s_values close) horizon i)) (- xt) then 1 else 0)"
  using assms
  by (simp add: label_at_def column_def generate_entry_exit_labels_def Let_def fillna_def)

lemma slices_agree:
  assumes "length a = length b"
    and "\<forall>k. i \<le> k \<and> k \<le> min (length a - 1) (i + horizon) \<longrightarrow> a ! k = b ! k"
  shows "drop i (take (i + horizon + 1) a) = drop i (take (i + horizon + 1) (b :: 'a list))"
proof (rule nth_equalityI)
  show "length (drop i (take (i + horizon + 1) a)) = length (drop i (take (i + horizon + 1) b))"
    using assms(1) by simp
next
  fix k
  assume "k < length (drop i (take (i + horizon + 1) a))"
  then have k: "i + k < length a" "i + k < i + horizon + 1" by auto
  then have "i \<le> i + k \<and> i + k \<le> min (length a - 1) (i + horizon)" by auto
  with assms(2) have "a ! (i + k) = b ! (i + k)" by blast
  with k assms(1) show "drop i (take (i + horizon + 1) a) ! k = drop i (take (i + horizon + 1) b) ! k"
    by simp
qed

text \<open>
  C2 as stated fails: the generator reads the anchor price \<open>close[i]\<close> as the base of
  the forward returns.  The series \<open>[100, 103]\<close> and \<open>[200, 103]\<close> have the same
  length and agree on the indices \<open>i + 1 .. min (n - 1) (i + h) = 1 .. 1\<close> for \<open>i = 0\<close>
  and \<open>h = 1\<close>, yet their labels at index 0 differ.
\<close>

theorem labels_anchor_counterexample:
  "length [100, 103 :: real] = length [200, 103 :: real] \<and>
   [100, 103 :: real] ! 1 = [200, 103] ! 1 \<and>
   label_at (generate_entry_exit_labels (series_of [100, 103]) 1 0.02 0.02) 0 = (1, 0) \<and>
   label_at (generate_entry_exit_labels (series_of [200, 103]) 1 0.02 0.02) 0 = (0, 1)"
  by code_simp

text \<open>
  C2, amended (no look-ahead below the anchor, no read past the end).  The label pair
  at index \<open>i\<close> is a function of the prices at the indices \<open>i .. min (n - 1) (i + h)\<close>
  alone: two close series of the same length \<open>n\<close> that agree on these indices have the
  same (entry, exit) labels at \<open>i\<close>, whatever they hold before \<open>i\<close> and after
  \<open>i + h\<close>.  The anchor \<open>close[i]\<close> itself is read, as the base of the returns.
\<close>

theorem labels_depend_on_anchor_and_forward_window:
  assumes "length (s_values a) = length (s_values b)"
    and "i < length (s_values a)"
    and "\<forall>k. i \<le> k \<and> k \<le> min (length (s_values a) - 1) (i + horizon) \<longrightarrow>
             s_values a ! k = s_values b ! k"
  shows "label_at (generate_entry_exit_labels a horizon entry_threshold exit_threshold) i
       = label_at (generate_entry_exit_labels b horizon entry_threshold exit_threshold) i"
proof -
  from assms(1,3) have "drop i (take (i + horizon + 1) (s_values a))
      = drop i (take (i + horizon + 1) (s_values b))"
    by (rule slices_agree)
  with assms(1,2) have "forward_extrema (s_values a) horizon i = forward_extrema (s_values b) horizon i"
    by (intro forward_extrema_cong) simp_all
  with assms(1,2) show ?thesis
    by (simp add: label_at_generate)
qed

theorem labels_depend_on_anchor_and_forward_window_witness:
  "length (s_values (series_of [7, 100, 101, 103, 50 :: real]))
     = length (s_values (series_of [9, 100, 101, 103, 60 :: real])) \<and>
   (1 :: nat) < length (s_values (series_of [7, 100, 101, 103, 50 :: real])) \<and>
   label_at (generate_entry_exit_labels (series_of [7, 100, 101, 103, 50]) 2 0.02 0.02) 1
     = label_at (generate_entry_exit_labels (series_of [9, 100, 101, 103, 60]) 2 0.02 0.02) 1 \<and>
   label_at (generate_entry_exit_labels (series_of [7, 100, 101, 103, 50]) 2 0.02 0.02) 1 = (1, 0)"
proof -
  have h1: "length (s_values (series_of [7, 100, 101, 103, 50 :: real]))
     = length (s_values (series_of [9, 100, 101, 103, 60 :: real]))"
    by (simp add: series_of_def)
  have h2: "(1 :: nat) < length (s_values (series_of [7, 100, 101, 103, 50 :: real]))"
    by (simp add: series_of_def)
  have h3: "\<forall>k. 1 \<le> k \<and> k \<le> min (length (s_values (series_of [7, 100, 101, 103, 50 :: real])) - 1) (1 + 2) \<longrightarrow>
             s_values (series_of [7, 100, 101, 103, 50 :: real]) ! k
               = s_values (series_of [9, 100, 101, 103, 60 :: real]) ! k"
  proof (intro allI impI)
    fix k :: nat
    assume "1 \<le> k \<and> k \<le> min (length (s_values (series_of [7, 100, 101, 103, 50 :: real])) - 1) (1 + 2)"
    then have "k = 1 \<or> k = 2 \<or> k = 3" by (auto simp: series_of_def)
    then show "s_values (series_of [7, 100, 101, 103, 50 :: real]) ! k
               = s_values (series_of [9, 100, 101, 103, 60 :: real]) ! k"
      by (auto simp: series_of_def)
  qed
  have v: "label_at (generate_entry_exit_labels (series_of [7, 100, 101, 103, 50]) 2 0.02 0.02) 1 = (1, 0)"
    by code_simp
  from labels_depend_on_anchor_and_forward_window [OF h1 h2 h3, of "0.02" "0.02"] h1 h2 v
  show ?thesis by blast
qed

lemma label_cells_binary:
  assumes "i < length (s_values close)"
  shows "fst (label_at (generate_entry_exit_labels close horizon et xt) i) \<in> {0, 1}"
    and "snd (label_at (generate_entry_exit_labels close horizon et xt) i) \<in> {0, 1}"
  using assms by (simp_all add: label_at_generate)

lemma label_columns_length:
  "length (column (Inr (generate_entry_exit_labels close horizon et xt)) ''entry'')
     = length (s_values close)"
  "length (column (Inr (generate_entry_exit_labels close horizon et xt)) ''exit'')
     = length (s_values close)"
  by (simp_all add: column_def generate_entry_exit_labels_def Let_def fillna_def)

lemma label_empty_window:
  assumes "i < length (s_values close)" and "forward_window (s_values close) horizon i = []"
  shows "label_at (generate_entry_exit_labels close horizon et xt) i = (0, 0)"
  using assms by (simp add: label_at_generate forward_extrema_alt)

text \<open>
  C3 as stated fails in one number: at \<open>i = 2\<close> the base price is \<open>close[2] = 103\<close>, so
  the forward returns of the window \<open>[99, 98]\<close> are \<open>99/103 - 1\<close> and \<open>98/103 - 1\<close>,
  about \<open>-0.0388\<close> and \<open>-0.0485\<close>; they are not the \<open>-0.0194\<close> and \<open>-0.0291\<close> of the
  claim, from which they differ by more than \<open>0.019\<close>.
\<close>

theorem label_fixture_returns_counterexample:
  "forward_returns [100, 101, 103, 99, 98] 2 2 = [Fin (- 4 / 103), Fin (- 5 / 103)] \<and>
   \<bar>(- 4 / 103 :: real) - (- 0.0194)\<bar> > 0.019 \<and>
   \<bar>(- 5 / 103 :: real) - (- 0.0291)\<bar> > 0.019"
proof (intro conjI)
  show "forward_returns [100, 101, 103, 99, 98] 2 2 = [Fin (- 4 / 103), Fin (- 5 / 103)]"
    by code_simp
qed simp_all

text \<open>
  C3, amended (label fixture and end of series).  For
  \<open>close = [100, 101, 103, 99, 98]\<close>, horizon 2 and both thresholds 0.02: at \<open>i = 0\<close>
  the forward window is \<open>[101, 103]\<close> with returns \<open>[0.01, 0.03]\<close>, giving entry 1 and
  exit 0; at \<open>i = 2\<close> the forward window is \<open>[99, 98]\<close> with returns
  \<open>[-4/103, -5/103]\<close> (about \<open>-0.0388\<close> and \<open>-0.0485\<close>), giving entry 0 and exit 1; at
  the last index \<open>i = 4\<close> the forward window is empty and the label pair is (0, 0).
  In general every index whose forward window is empty has the labels (0, 0), and both
  output columns have one cell per input row, each cell 0 or 1, so none is undefined.
\<close>

theorem label_fixture_and_end_of_series:
  "forward_window [100, 101, 103, 99, 98] 2 0 = [101, 103] \<and>
   forward_returns [100, 101, 103, 99, 98] 2 0 = [Fin 0.01, Fin 0.03] \<and>
   label_at (generate_entry_exit_labels (series_of [100, 101, 103, 99, 98]) 2 0.02 0.02) 0 = (1, 0) \<and>
   forward_window [100, 101, 103, 99, 98] 2 2 = [99, 98] \<and>
   forward_returns [100, 101, 103, 99, 98] 2 2 = [Fin (- 4 / 103), Fin (- 5 / 103)] \<and>
   \<bar>(- 4 / 103 :: real) - (- 0.0388)\<bar> < 0.00005 \<and> \<bar>(- 5 / 103 :: real) - (- 0.0485)\<bar> < 0.00005 \<and>
   label_at (generate_entry_exit_labels (series_of [100, 101, 103, 99, 98]) 2 0.02 0.02) 2 = (0, 1) \<and>
   forward_window [100, 101, 103, 99, 98] 2 4 = [] \<and>
   label_at (generate_entry_exit_labels (series_of [100, 101, 103, 99, 98]) 2 0.02 0.02) 4 = (0, 0) \<and>
   (\<forall>close horizon et xt i.
      i < length (s_values close) \<and> forward_window (s_values close) horizon i = [] \<longrightarrow>
      label_at (generate_entry_exit_labels close horizon et xt) i = (0, 0)) \<and>
   (\<forall>close horizon et xt.
      length (column (Inr (generate_entry_exit_labels close horizon et xt)) ''entry'')
        = length (s_values close) \<and>
      length (column (Inr (generate_entry_exit_labels close horizon et xt)) ''exit'')
        = length (s_values close) \<and>
      (\<forall>i < length (s_values close).
         fst (label_at (generate_entry_exit_labels close horizon et xt) i) \<in> {0, 1} \<and>
         snd (label_at (generate_entry_exit_labels close horizon et xt) i) \<in> {0, 1}))"
proof (intro conjI allI impI)
  show "forward_window [100, 101, 103, 99, 98] 2 0 = [101, 103]" by code_simp
  show "forward_returns [100, 101, 103, 99, 98] 2 0 = [Fin 0.01, Fin 0.03]" by code_simp
  show "label_at (generate_entry_exit_labels (series_of [100, 101, 103, 99, 98]) 2 0.02 0.02) 0 = (1, 0)"
    by code_simp
  show "forward_window [100, 101, 103, 99, 98] 2 2 = [99, 98]" by code_simp
  show "forward_returns [100, 101, 103, 99, 98] 2 2 = [Fin (- 4 / 103), Fin (- 5 / 103)]"
    by code_simp
  show "\<bar>(- 4 / 103 :: real) - (- 0.0388)\<bar> < 0.00005" by simp
  show "\<bar>(- 5 / 103 :: real) - (- 0.0485)\<bar> < 0.00005" by simp
  show "label_at (generate_entry_exit_labels (series_of [100, 101, 103, 99, 98]) 2 0.02 0.02) 2 = (0, 1)"
    by code_simp
  show "forward_window [100, 101, 103, 99, 98] 2 4 = []" by code_simp
  show "label_at (generate_entry_exit_labels (series_of [100, 101, 103, 99, 98]) 2 0.02 0.02) 4 = (0, 0)"
    by code_simp
next
  fix close :: "real series" and horizon i :: nat and et xt :: real
  assume "i < length (s_values close) \<and> forward_window (s_values close) horizon i = []"
  then show "label_at (generate_entry_exit_labels close horizon et xt) i = (0, 0)"
    by (simp add: label_empty_window)
next
  fix close :: "real series" and horizon :: nat and et xt :: real
  show "length (column (Inr (generate_entry_exit_labels close horizon et xt)) ''entry'')
        = length (s_values close)"
    by (rule label_columns_length)
  show "length (column (Inr (generate_entry_exit_labels close horizon et xt)) ''exit'')
        = length (s_values close)"
    by (rule label_columns_length)
  fix i
  assume i: "i < length (s_values close)"
  show "fst (label_at (generate_entry_exit_labels close horizon et xt) i) \<in> {0, 1}"
    using i by (rule label_cells_binary)
  show "snd (label_at (generate_entry_exit_labels close horizon et xt) i) \<in> {0, 1}"
    using i by (rule label_cells_binary)
qed

theorem label_fixture_and_end_of_series_witness:
  "(1 :: nat) < length (s_values (series_of [5, 7 :: real])) \<and>
   forward_window (s_values (series_of [5, 7 :: real])) 3 1 = [] \<and>
   label_at (generate_entry_exit_labels (series_of [5, 7]) 3 0.01 0.01) 1 = (0, 0) \<and>
   fst (label_at (generate_entry_exit_labels (series_of [5, 7]) 3 0.01 0.01) 0) \<in> {0, 1}"
proof -
  have h: "(1 :: nat) < length (s_values (series_of [5, 7 :: real])) \<and>
     forward_window (s_values (series_of [5, 7 :: real])) 3 1 = []"
    by code_simp
  have h0: "(0 :: nat) < length (s_values (series_of [5, 7 :: real]))"
    by code_simp
  note g = label_fixture_and_end_of_series [THEN conjunct2, THEN conjunct2, THEN conjunct2,
      THEN conjunct2, THEN conjunct2, THEN conjunct2, THEN conjunct2, THEN conjunct2,
      THEN conjunct2, THEN conjunct2]
  note a = g [THEN conjunct1, rule_format, OF h, of "0.01" "0.01"]
  note b = g [THEN conjunct2, rule_format, of "series_of [5, 7]" 3 "0.01" "0.01",
      THEN conjunct2, THEN conjunct2, rule_format, OF h0, THEN conjunct1]
  from h a b show ?thesis by blast
qed

section \<open>Scaler\<close>

lemma bcast_same: "bcast a a = Some a"
  by (simp add: bcast_def)

lemma iloc_slice_map: "iloc_slice sl (map f xs) = map f (iloc_slice sl xs)"
  by (simp add: iloc_slice_def Let_def take_map drop_map)

lemma pd_std_zero:
  assumes "pd_std xs = Fin 0"
  shows "2 \<le> length xs" and "\<forall>x\<in>set xs. x = sum_list xs / real (length xs)"
    and "pd_mean xs = Fin (sum_list xs / real (length xs))"
proof -
  let ?m = "sum_list xs / real (length xs)"
  show len: "2 \<le> length xs"
    using assms by (auto simp: pd_std_def split: if_splits)
  with assms have "sqrt (sum_list (map (\<lambda>x. (x - ?m)\<^sup>2) xs) / real (length xs - 1)) = 0"
    by (simp add: pd_std_def Let_def)
  then have "sum_list (map (\<lambda>x. (x - ?m)\<^sup>2) xs) / real (length xs - 1) = 0"
    by simp
  with len have "sum_list (map (\<lambda>x. (x - ?m)\<^sup>2) xs) = 0"
    by simp
  moreover have "\<forall>y\<in>set (map (\<lambda>x. (x - ?m)\<^sup>2) xs). 0 \<le> y"
    by auto
  ultimately have "\<forall>y\<in>set (map (\<lambda>x. (x - ?m)\<^sup>2) xs). y = 0"
    by (simp only: sum_list_nonneg_eq_0_iff)
  then show "\<forall>x\<in>set xs. x = ?m"
    by simp
  from len have "xs \<noteq> []" by auto
  then show "pd_mean xs = Fin ?m"
    by (simp add: pd_mean_def)
qed

lemma fit_fields:
  "mean' (fit self features sl)
     = Some (map (\<lambda>(c, vs). pd_mean (iloc_slice sl vs)) (df_cols features))"
  "std' (fit self features sl)
     = Some (map (\<lambda>(c, vs). if pd_std (iloc_slice sl vs) = Fin 0 then Fin 1
                              else pd_std (iloc_slice sl vs)) (df_cols features))"
  "feature_names' (fit self features sl) = Some (map fst (df_cols features))"
  by (simp_all add: fit_def Let_def case_prod_unfold comp_def)

lemma fit_overwrites: "fit self features sl = fit init features sl"
  by (cases self) (simp add: fit_def init_def Let_def)

lemma transform_fitted:
  assumes "mean' self = Some mean" and "std' self = Some std" and "feature_names' self = Some names"
    and "length mean = w" and "length std = w" and "length names = w"
    and "length (df_cols g) = w"
  shows "transform self g =
     (Inr \<lparr>df_index = df_index g,
           df_cols = zip names (map (\<lambda>j. map (\<lambda>x. fdiv (rsub x (mean ! j)) (std ! j))
                                              (snd (df_cols g ! j))) [0..<w])\<rparr>, self)"
proof -
  have eq: "map (\<lambda>j. map (\<lambda>x. fdiv (rsub x (bget mean j)) (bget std j)) (bget (map snd (df_cols g)) j)) [0..<w]
      = map (\<lambda>j. map (\<lambda>x. fdiv (rsub x (mean ! j)) (std ! j)) (snd (df_cols g ! j))) [0..<w]"
    using assms(4,5,7) by (intro map_cong refl) (auto simp: bget_def)
  from assms show ?thesis
    by (simp add: transform_def Let_def bcast_same eq)
qed

lemma transform_after_fit:
  assumes "length (df_cols g) = length (df_cols f)"
  shows "transform (fit self f sl) g =
     (Inr \<lparr>df_index = df_index g,
           df_cols = zip (map fst (df_cols f))
             (map (\<lambda>j. map (\<lambda>x. fdiv (rsub x (pd_mean (iloc_slice sl (snd (df_cols f ! j)))))
                              (if pd_std (iloc_slice sl (snd (df_cols f ! j))) = Fin 0 then Fin 1
                               else pd_std (iloc_slice sl (snd (df_cols f ! j)))))
                        (snd (df_cols g ! j))) [0..<length (df_cols f)])\<rparr>, fit self f sl)"
proof -
  have eq: "map (\<lambda>j. map (\<lambda>x. fdiv (rsub x (map (\<lambda>(c, vs). pd_mean (iloc_slice sl vs)) (df_cols f) ! j))
                    (map (\<lambda>(c, vs). if pd_std (iloc_slice sl vs) = Fin 0 then Fin 1
                              else pd_std (iloc_slice sl vs)) (df_cols f) ! j))
                  (snd (df_cols g ! j))) [0..<length (df_cols f)]
     = map (\<lambda>j. map (\<lambda>x. fdiv (rsub x (pd_mean (iloc_slice sl (snd (df_cols f ! j)))))
                              (if pd_std (iloc_slice sl (snd (df_cols f ! j))) = Fin 0 then Fin 1
                               else pd_std (iloc_slice sl (snd (df_cols f ! j)))))
                        (snd (df_cols g ! j))) [0..<length (df_cols f)]"
    by (intro map_cong refl) (simp add: case_prod_unfold)
  show ?thesis
    using transform_fitted [OF fit_fields [of self f sl], where w = "length (df_cols f)" and g = g]
      assms
    by (simp add: eq)
qed

lemma transform_state: "snd (transform self features) = self"
  by (simp add: transform_def Let_def split: option.splits)

lemma transform_not_fitted:
  "(fst (transform self features) = Inl NotFitted) = (mean' self = None \<or> std' self = None)"
  by (auto simp: transform_def Let_def split: option.splits)

lemma do_call_fitted:
  "(mean' (do_call self c) = None) = (mean' self = None \<and> \<not> is_fit c)"
  "(std' (do_call self c) = None) = (std' self = None \<and> \<not> is_fit c)"
  by (cases c; simp add: fit_fields fit_transform_def transform_state)+

lemma run_fitted:
  "(mean' (run calls) = None) = (\<not> list_ex is_fit calls)"
  "(std' (run calls) = None) = (\<not> list_ex is_fit calls)"
proof (induction calls rule: rev_induct)
  case Nil
  show "(mean' (run []) = None) = (\<not> list_ex is_fit [])"
    and "(std' (run []) = None) = (\<not> list_ex is_fit [])"
    by (simp_all add: run_def init_def)
next
  case (snoc c calls)
  have r: "run (calls @ [c]) = do_call (run calls) c"
    by (simp add: run_def)
  show "(mean' (run (calls @ [c])) = None) = (\<not> list_ex is_fit (calls @ [c]))"
    using snoc by (auto simp: r do_call_fitted list_ex_iff)
  show "(std' (run (calls @ [c])) = None) = (\<not> list_ex is_fit (calls @ [c]))"
    using snoc by (auto simp: r do_call_fitted list_ex_iff)
qed

lemmas scaler_eval =
  fit_transform_def transform_def fit_def init_def frame_of_def slice_of_def iloc_slice_def
  slice_bound_def pd_mean_def pd_std_def Let_def power2_eq_square bcast_def bget_def np_div_def
  column_def

text \<open>
  C6 (scaler fixture and zero-deviation policy).  Fitting on rows [0, 3) of the
  one-column table \<open>[[1], [2], [3], [10]]\<close> stores mean 2 and (sample) standard
  deviation 1, and transforming the whole table gives the column \<open>[-1, 0, 1, 8]\<close>.
  For every fit, a column whose standard deviation over the training rows is exactly 0
  gets the stored deviation 1 and keeps its mean; transforming the fitted table then
  succeeds and the training rows of that column are all exactly 0, none undefined.
\<close>

theorem scaler_fixture_and_zero_std:
  "mean' (fit init (frame_of [(''x'', [1, 2, 3, 10])]) (slice_of 0 3)) = Some [Fin 2] \<and>
   std' (fit init (frame_of [(''x'', [1, 2, 3, 10])]) (slice_of 0 3)) = Some [Fin 1] \<and>
   column (fst (transform (fit init (frame_of [(''x'', [1, 2, 3, 10])]) (slice_of 0 3))
                  (frame_of [(''x'', [1, 2, 3, 10])]))) ''x''
     = [Fin (- 1), Fin 0, Fin 1, Fin 8] \<and>
   (\<forall>self features sl j name vs.
      j < length (df_cols features) \<and> df_cols features ! j = (name, vs) \<and>
      pd_std (iloc_slice sl vs) = Fin 0 \<longrightarrow>
      (\<exists>mean std out.
         mean' (fit self features sl) = Some mean \<and> std' (fit self features sl) = Some std \<and>
         std ! j = Fin 1 \<and> mean ! j = pd_mean (iloc_slice sl vs) \<and>
         fst (transform (fit self features sl) features) = Inr out \<and>
         length (df_cols out) = length (df_cols features) \<and>
         fst (df_cols out ! j) = name \<and>
         length (snd (df_cols out ! j)) = length vs \<and>
         iloc_slice sl (snd (df_cols out ! j)) = replicate (length (iloc_slice sl vs)) (Fin 0)))"
proof (intro conjI allI impI)
  show "mean' (fit init (frame_of [(''x'', [1, 2, 3, 10])]) (slice_of 0 3)) = Some [Fin 2]"
    by (simp add: scaler_eval)
  show "std' (fit init (frame_of [(''x'', [1, 2, 3, 10])]) (slice_of 0 3)) = Some [Fin 1]"
    by (simp add: scaler_eval)
  show "column (fst (transform (fit init (frame_of [(''x'', [1, 2, 3, 10])]) (slice_of 0 3))
                  (frame_of [(''x'', [1, 2, 3, 10])]))) ''x''
     = [Fin (- 1), Fin 0, Fin 1, Fin 8]"
    by (simp add: scaler_eval)
next
  fix self :: scaler and features :: "real dataframe" and sl :: py_slice and j :: nat
    and name :: string and vs :: "real list"
  assume h: "j < length (df_cols features) \<and> df_cols features ! j = (name, vs) \<and>
      pd_std (iloc_slice sl vs) = Fin 0"
  then have j: "j < length (df_cols features)" and c: "df_cols features ! j = (name, vs)"
    and z: "pd_std (iloc_slice sl vs) = Fin 0"
    by simp_all
  let ?m = "sum_list (iloc_slice sl vs) / real (length (iloc_slice sl vs))"
  let ?mean = "map (\<lambda>(c, vs). pd_mean (iloc_slice sl vs)) (df_cols features)"
  let ?std = "map (\<lambda>(c, vs). if pd_std (iloc_slice sl vs) = Fin 0 then Fin 1
                              else pd_std (iloc_slice sl vs)) (df_cols features)"
  let ?scaled = "map (\<lambda>j. map (\<lambda>x. fdiv (rsub x (pd_mean (iloc_slice sl (snd (df_cols features ! j)))))
                              (if pd_std (iloc_slice sl (snd (df_cols features ! j))) = Fin 0 then Fin 1
                               else pd_std (iloc_slice sl (snd (df_cols features ! j)))))
                        (snd (df_cols features ! j))) [0..<length (df_cols features)]"
  let ?out = "\<lparr>df_index = df_index features,
               df_cols = zip (map fst (df_cols features)) ?scaled\<rparr>"
  have t: "fst (transform (fit self features sl) features) = Inr ?out"
    by (simp add: transform_after_fit)
  have pm: "pd_mean (iloc_slice sl vs) = Fin ?m"
    using z by (rule pd_std_zero)
  have all: "\<forall>x\<in>set (iloc_slice sl vs). x = ?m"
    using z by (rule pd_std_zero)
  have col: "snd (df_cols ?out ! j) = map (\<lambda>x. fdiv (rsub x (Fin ?m)) (Fin 1)) vs"
    using j c z by (simp add: pm)
  have "iloc_slice sl (snd (df_cols ?out ! j))
      = map (\<lambda>x. fdiv (rsub x (Fin ?m)) (Fin 1)) (iloc_slice sl vs)"
    unfolding col by (rule iloc_slice_map)
  also have "\<dots> = map (\<lambda>x. Fin 0) (iloc_slice sl vs)"
    using all by (intro map_cong refl) (simp add: np_div_def)
  also have "\<dots> = replicate (length (iloc_slice sl vs)) (Fin 0)"
    by (simp add: map_replicate_const)
  finally have tr: "iloc_slice sl (snd (df_cols ?out ! j))
      = replicate (length (iloc_slice sl vs)) (Fin 0)" .
  have "mean' (fit self features sl) = Some ?mean \<and> std' (fit self features sl) = Some ?std \<and>
         ?std ! j = Fin 1 \<and> ?mean ! j = pd_mean (iloc_slice sl vs) \<and>
         fst (transform (fit self features sl) features) = Inr ?out \<and>
         length (df_cols ?out) = length (df_cols features) \<and>
         fst (df_cols ?out ! j) = name \<and>
         length (snd (df_cols ?out ! j)) = length vs \<and>
         iloc_slice sl (snd (df_cols ?out ! j)) = replicate (length (iloc_slice sl vs)) (Fin 0)"
  proof (intro conjI)
    show "mean' (fit self features sl) = Some ?mean" by (rule fit_fields)
    show "std' (fit self features sl) = Some ?std" by (rule fit_fields)
    show "?std ! j = Fin 1" using j c z by simp
    show "?mean ! j = pd_mean (iloc_slice sl vs)" using j c by simp
    show "fst (transform (fit self features sl) features) = Inr ?out" by (rule t)
    show "length (df_cols ?out) = length (df_cols features)" by simp
    show "fst (df_cols ?out ! j) = name" using j c by simp
    show "length (snd (df_cols ?out ! j)) = length vs" unfolding col by simp
    show "iloc_slice sl (snd (df_cols ?out ! j)) = replicate (length (iloc_slice sl vs)) (Fin 0)"
      by (rule tr)
  qed
  then show "\<exists>mean std out.
         mean' (fit self features sl) = Some mean \<and> std' (fit self features sl) = Some std \<and>
         std ! j = Fin 1 \<and> mean ! j = pd_mean (iloc_slice sl vs) \<and>
         fst (transform (fit self features sl) features) = Inr out \<and>
         length (df_cols out) = length (df_cols features) \<and>
         fst (df_cols out ! j) = name \<and>
         length (snd (df_cols out ! j)) = length vs \<and>
         iloc_slice sl (snd (df_cols out ! j)) = replicate (length (iloc_slice sl vs)) (Fin 0)"
    by blast
qed

theorem scaler_fixture_and_zero_std_witness:
  "(0 :: nat) < length (df_cols (frame_of [(''x'', [5, 5, 5, 7 :: real])])) \<and>
   df_cols (frame_of [(''x'', [5, 5, 5, 7 :: real])]) ! 0 = (''x'', [5, 5, 5, 7]) \<and>
   pd_std (iloc_slice (slice_of 0 3) [5, 5, 5, 7]) = Fin 0 \<and>
   (\<exists>mean std out.
      mean' (fit init (frame_of [(''x'', [5, 5, 5, 7])]) (slice_of 0 3)) = Some mean \<and>
      std' (fit init (frame_of [(''x'', [5, 5, 5, 7])]) (slice_of 0 3)) = Some std \<and>
      std ! 0 = Fin 1 \<and> mean ! 0 = pd_mean (iloc_slice (slice_of 0 3) [5, 5, 5, 7]) \<and>
      fst (transform (fit init (frame_of [(''x'', [5, 5, 5, 7])]) (slice_of 0 3))
             (frame_of [(''x'', [5, 5, 5, 7])])) = Inr out \<and>
      length (df_cols out) = length (df_cols (frame_of [(''x'', [5, 5, 5, 7 :: real])])) \<and>
      fst (df_cols out ! 0) = ''x'' \<and>
      length (snd (df_cols out ! 0)) = length [5, 5, 5, 7 :: real] \<and>
      iloc_slice (slice_of 0 3) (snd (df_cols out ! 0))
        = replicate (length (iloc_slice (slice_of 0 3) [5, 5, 5, 7 :: real])) (Fin 0))"
proof -
  have h: "(0 :: nat) < length (df_cols (frame_of [(''x'', [5, 5, 5, 7 :: real])])) \<and>
     df_cols (frame_of [(''x'', [5, 5, 5, 7 :: real])]) ! 0 = (''x'', [5, 5, 5, 7]) \<and>
     pd_std (iloc_slice (slice_of 0 3) [5, 5, 5, 7]) = Fin 0"
    by (simp add: scaler_eval)
  from scaler_fixture_and_zero_std [THEN conjunct2, THEN conjunct2, THEN conjunct2,
      rule_format, OF h, of init] h
  show ?thesis by (intro conjI) blast+
qed

text \<open>
  C8 (scaler state error).  \<open>transform\<close> raises the not-fitted error exactly when the
  mean or the deviation is unset, and on an object that has gone through any history
  of calls that is exactly when the history holds no \<open>fit\<close> (or \<open>fit_transform\<close>).
  \<open>transform\<close> never changes the object, in particular not when it raises.  After a
  fit, transforming any table with as many columns as the fitted one succeeds, with the
  index of the table and the column names recorded by the fit.
\<close>

theorem scaler_state_error:
  "(\<forall>self features.
      (fst (transform self features) = Inl NotFitted) = (mean' self = None \<or> std' self = None)) \<and>
   (\<forall>calls features.
      (fst (transform (run calls) features) = Inl NotFitted) = (\<not> list_ex is_fit calls)) \<and>
   (\<forall>self features. snd (transform self features) = self) \<and>
   (\<forall>self f sl g.
      length (df_cols g) = length (df_cols f) \<longrightarrow>
      (\<exists>out. fst (transform (fit self f sl) g) = Inr out \<and> df_index out = df_index g \<and>
             map fst (df_cols out) = map fst (df_cols f)))"
proof (intro conjI allI impI)
  fix self :: scaler and features :: "real dataframe"
  show "(fst (transform self features) = Inl NotFitted) = (mean' self = None \<or> std' self = None)"
    by (rule transform_not_fitted)
  show "snd (transform self features) = self"
    by (rule transform_state)
next
  fix calls :: "call list" and features :: "real dataframe"
  show "(fst (transform (run calls) features) = Inl NotFitted) = (\<not> list_ex is_fit calls)"
    by (simp add: transform_not_fitted run_fitted)
next
  fix self :: scaler and f g :: "real dataframe" and sl :: py_slice
  assume "length (df_cols g) = length (df_cols f)"
  then show "\<exists>out. fst (transform (fit self f sl) g) = Inr out \<and> df_index out = df_index g \<and>
             map fst (df_cols out) = map fst (df_cols f)"
    by (simp add: transform_after_fit)
qed

theorem scaler_state_error_witness:
  "length (df_cols (frame_of [(''x'', [4, 6 :: real])]))
     = length (df_cols (frame_of [(''x'', [1, 2, 3, 10 :: real])])) \<and>
   (\<exists>out. fst (transform (fit init (frame_of [(''x'', [1, 2, 3, 10])]) (slice_of 0 3))
                   (frame_of [(''x'', [4, 6])])) = Inr out \<and>
          df_index out = df_index (frame_of [(''x'', [4, 6 :: real])]) \<and>
          map fst (df_cols out) = map fst (df_cols (frame_of [(''x'', [1, 2, 3, 10 :: real])]))) \<and>
   fst (transform init (frame_of [(''x'', [4, 6])])) = Inl NotFitted \<and>
   fst (transform (run [Transform (frame_of [(''x'', [4, 6])])]) (frame_of [(''x'', [4, 6])]))
     = Inl NotFitted \<and>
   snd (transform init (frame_of [(''x'', [4, 6])])) = init"
proof -
  have h: "length (df_cols (frame_of [(''x'', [4, 6 :: real])]))
     = length (df_cols (frame_of [(''x'', [1, 2, 3, 10 :: real])]))"
    by (simp add: frame_of_def)
  note a = scaler_state_error [THEN conjunct1, rule_format, of init "frame_of [(''x'', [4, 6])]"]
  note b = scaler_state_error [THEN conjunct2, THEN conjunct1, rule_format,
      of "[Transform (frame_of [(''x'', [4, 6])])]" "frame_of [(''x'', [4, 6])]"]
  note c = scaler_state_error [THEN conjunct2, THEN conjunct2, THEN conjunct1, rule_format,
      of init "frame_of [(''x'', [4, 6])]"]
  note d = scaler_state_error [THEN conjunct2, THEN conjunct2, THEN conjunct2, rule_format,
      OF h, of init "slice_of 0 3"]
  have a': "fst (transform init (frame_of [(''x'', [4, 6])])) = Inl NotFitted"
    using a by (simp add: init_def)
  have b': "fst (transform (run [Transform (frame_of [(''x'', [4, 6])])])
                   (frame_of [(''x'', [4, 6])])) = Inl NotFitted"
    using b by simp
  from h d a' b' c show ?thesis by (intro conjI)
qed

text \<open>
  C9 (scaler round trip).  For every table and every training range,
  \<open>fit_transform\<close> on any scaler object returns the output of \<open>fit\<close> followed by
  \<open>transform\<close> on a fresh one, and the two objects end up with the same stored
  parameters, those of the fit alone.
\<close>

theorem fit_transform_round_trip:
  "fst (fit_transform self features train_slice)
     = fst (transform (fit init features train_slice) features) \<and>
   snd (fit_transform self features train_slice)
     = snd (transform (fit init features train_slice) features) \<and>
   snd (fit_transform self features train_slice) = fit init features train_slice"
  unfolding fit_transform_def fit_overwrites [of self] by (simp add: transform_state)

section \<open>Sequence windower\<close>

lemma window_loop_closed:
  assumes "0 < stride"
  shows "m = (if start + seq_len \<le> T then (T - seq_len - start) div stride + 1 else 0) \<Longrightarrow>
     window_loop seq_len stride T acc start
       = Some (acc @ map (\<lambda>k. (start + k * stride, start + k * stride + seq_len)) [0..<m])"
proof (induction m arbitrary: acc start)
  case 0
  then have "\<not> start + seq_len \<le> T" by (auto split: if_splits)
  then show ?case by (simp add: window_loop.simps)
next
  case (Suc m)
  then have le: "start + seq_len \<le> T" by (auto split: if_splits)
  with Suc.prems have m: "m = (T - seq_len - start) div stride" by simp
  have m': "m = (if start + stride + seq_len \<le> T
                 then (T - seq_len - (start + stride)) div stride + 1 else 0)"
  proof (cases "start + stride + seq_len \<le> T")
    case True
    then have "stride \<le> T - seq_len - start" by simp
    with assms have "(T - seq_len - start) div stride
        = Suc ((T - seq_len - start - stride) div stride)"
      by (simp add: le_div_geq)
    with True m show ?thesis by (simp add: ac_simps)
  next
    case False
    with assms have "T - seq_len - start < stride" by arith
    with m False show ?thesis by simp
  qed
  have "window_loop seq_len stride T acc start
      = window_loop seq_len stride T (acc @ [(start, start + seq_len)]) (start + stride)"
    using le by (subst window_loop.simps) simp
  also have "\<dots> = Some ((acc @ [(start, start + seq_len)]) @
       map (\<lambda>k. (start + stride + k * stride, start + stride + k * stride + seq_len)) [0..<m])"
    using m' by (intro Suc.IH) (simp add: ac_simps)
  also have "map (\<lambda>k. (start + stride + k * stride, start + stride + k * stride + seq_len)) [0..<m]
      = map (\<lambda>k. (start + k * stride, start + k * stride + seq_len)) (map Suc [0..<m])"
    by (simp add: ac_simps)
  also have "(acc @ [(start, start + seq_len)]) @
      map (\<lambda>k. (start + k * stride, start + k * stride + seq_len)) (map Suc [0..<m])
     = acc @ map (\<lambda>k. (start + k * stride, start + k * stride + seq_len)) (0 # map Suc [0..<m])"
    by simp
  also have "0 # map Suc [0..<m] = [0..<Suc m]"
    by (simp add: map_Suc_upt upt_conv_Cons)
  finally show ?case .
qed

lemma window_loop_from_0:
  assumes "0 < stride"
  shows "window_loop seq_len stride T [] 0
     = Some (map (\<lambda>k. (k * stride, k * stride + seq_len)) [0..<window_count seq_len stride T])"
  using window_loop_closed [OF assms, of "window_count seq_len stride T" 0 seq_len T "[]"]
  by (simp add: window_count_def)

lemma window_loop_too_long:
  "num_timesteps < seq_len \<Longrightarrow> window_loop seq_len stride num_timesteps [] 0 = Some []"
  by (simp add: window_loop.simps)

lemma window_count_iff:
  assumes "0 < stride"
  shows "(k < window_count seq_len stride T) = (k * stride + seq_len \<le> T)"
proof (cases "seq_len \<le> T")
  case True
  then have "(k < window_count seq_len stride T) = (k \<le> (T - seq_len) div stride)"
    by (auto simp: window_count_def)
  also have "\<dots> = (k * stride \<le> T - seq_len)"
    using assms by (simp add: less_eq_div_iff_mult_less_eq)
  also have "\<dots> = (k * stride + seq_len \<le> T)"
    using True by auto
  finally show ?thesis .
next
  case False
  then show ?thesis by (simp add: window_count_def)
qed

lemma slab_T_nth:
  assumes "c < num_features" and "t < e - s" and "e \<le> length rows"
  shows "slab_T f32 num_features rows (s, e) ! c ! t = f32 (rows ! (s + t) ! c)"
  using assms by (simp add: slab_T_def)

lemma slab_T_shape:
  assumes "e \<le> length rows"
  shows "length (slab_T f32 num_features rows (s, e)) = num_features"
    and "c < num_features \<Longrightarrow> length (slab_T f32 num_features rows (s, e) ! c) = e - s"
  using assms by (simp_all add: slab_T_def)

lemma label_rows_ok:
  assumes "\<forall>(s, e)\<in>set ws. 1 \<le> e \<and> e \<le> length lab"
  shows "label_rows f32 lab ws = Inr (map (\<lambda>(s, e). map f32 (lab ! (e - 1))) ws)"
  using assms
proof (induction ws)
  case Nil
  then show ?case by simp
next
  case (Cons w ws)
  obtain s e where w: "w = (s, e)" by (cases w)
  with Cons.prems have e: "1 \<le> e" "e \<le> length lab" by auto
  then have "py_get lab (int e - 1) = Inr (lab ! (e - 1))"
    by (auto simp: py_get_def nat_diff_distrib')
  with Cons w show ?case by simp
qed

lemma generate_ok:
  assumes "0 < stride" and "0 < seq_len"
    and "length (data2 lab) = fst (shape2 features)"
    and "m = window_count seq_len stride (fst (shape2 features))"
    and "idx = map (\<lambda>k. (k * stride, k * stride + seq_len)) [0..<m]"
  shows "generate f32 seq_len stride features (Some (Labels2 lab)) =
     Some (Inr (\<lparr>shape3 = (m, snd (shape2 features), seq_len),
                  data3 = map (slab_T f32 (snd (shape2 features)) (data2 features)) idx\<rparr>,
                Some \<lparr>shape2 = (m, snd (shape2 lab)),
                      data2 = map (\<lambda>(s, e). map f32 (data2 lab ! (e - 1))) idx\<rparr>))"
    and "generate f32 seq_len stride features None =
     Some (Inr (\<lparr>shape3 = (m, snd (shape2 features), seq_len),
                  data3 = map (slab_T f32 (snd (shape2 features)) (data2 features)) idx\<rparr>, None))"
proof -
  have loop: "window_loop seq_len stride (fst (shape2 features)) [] 0 = Some idx"
    using assms(4,5) by (simp add: window_loop_from_0 [OF assms(1)])
  have len: "length idx = m"
    using assms(5) by simp
  have "\<forall>(s, e)\<in>set idx. 1 \<le> e \<and> e \<le> length (data2 lab)"
  proof (clarify)
    fix s e
    assume "(s, e) \<in> set idx"
    then obtain k where k: "k < m" "e = k * stride + seq_len"
      using assms(5) by auto
    from k(1) assms(4) have "k * stride + seq_len \<le> fst (shape2 features)"
      by (simp add: window_count_iff [OF assms(1)])
    with k(2) assms(2,3) show "1 \<le> e \<and> e \<le> length (data2 lab)"
      by simp
  qed
  then have rows: "label_rows f32 (data2 lab) idx
      = Inr (map (\<lambda>(s, e). map f32 (data2 lab ! (e - 1))) idx)"
    by (rule label_rows_ok)
  show "generate f32 seq_len stride features (Some (Labels2 lab)) =
     Some (Inr (\<lparr>shape3 = (m, snd (shape2 features), seq_len),
                  data3 = map (slab_T f32 (snd (shape2 features)) (data2 features)) idx\<rparr>,
                Some \<lparr>shape2 = (m, snd (shape2 lab)),
                      data2 = map (\<lambda>(s, e). map f32 (data2 lab ! (e - 1))) idx\<rparr>))"
    by (simp add: generate_def loop rows len Let_def)
  show "generate f32 seq_len stride features None =
     Some (Inr (\<lparr>shape3 = (m, snd (shape2 features), seq_len),
                  data3 = map (slab_T f32 (snd (shape2 features)) (data2 features)) idx\<rparr>, None))"
    by (simp add: generate_def loop len Let_def)
qed

lemma generate_too_long:
  assumes "fst (shape2 features) < seq_len"
  shows "generate f32 seq_len stride features None
       = Some (Inr (\<lparr>shape3 = (0, snd (shape2 features), seq_len), data3 = []\<rparr>, None))"
    and "generate f32 seq_len stride features (Some l)
       = Some (Inr (\<lparr>shape3 = (0, snd (shape2 features), seq_len), data3 = []\<rparr>,
                    Some \<lparr>shape2 = (0, snd (shape2 (labels_2d l))), data2 = []\<rparr>))"
  using assms by (simp_all add: generate_def window_loop_too_long Let_def)

text \<open>
  C7 (window set and label alignment).  For a feature array of \<open>T\<close> rows and \<open>F\<close>
  columns, \<open>seq_len \<ge> 1\<close> and \<open>stride \<ge> 1\<close>, and labels with one row per timestep,
  \<open>generate\<close> returns; it emits one sample for each start \<open>k * stride\<close> with
  \<open>k * stride + seq_len \<le> T\<close> and no other, in that order; sample \<open>k\<close> has the shape
  (features, time) and holds at feature \<open>c\<close> and time \<open>t\<close> the (cast) cell of row
  \<open>k * stride + t\<close> and column \<open>c\<close>; its label is the (cast) label row
  \<open>k * stride + seq_len - 1\<close>.  With 5 timesteps, \<open>seq_len = 3\<close> and \<open>stride = 1\<close> the
  windows are those of the starts 0, 1, 2.  When \<open>seq_len > T\<close> the call returns arrays
  without samples, with or without labels, and no error.
\<close>

theorem windower_windows_and_alignment:
  "(\<forall>(f32 :: 'a \<Rightarrow> 'b) seq_len stride features lab.
      1 \<le> seq_len \<and> 1 \<le> stride \<and> wf_array2 features \<and> wf_array2 lab \<and>
      fst (shape2 lab) = fst (shape2 features) \<longrightarrow>
      (\<exists>X y.
         generate f32 seq_len stride features (Some (Labels2 lab)) = Some (Inr (X, Some y)) \<and>
         generate f32 seq_len stride features None = Some (Inr (X, None)) \<and>
         shape3 X = (window_count seq_len stride (fst (shape2 features)),
                     snd (shape2 features), seq_len) \<and>
         length (data3 X) = window_count seq_len stride (fst (shape2 features)) \<and>
         shape2 y = (window_count seq_len stride (fst (shape2 features)), snd (shape2 lab)) \<and>
         length (data2 y) = window_count seq_len stride (fst (shape2 features)) \<and>
         (\<forall>k. (k < window_count seq_len stride (fst (shape2 features)))
                = (k * stride + seq_len \<le> fst (shape2 features))) \<and>
         (\<forall>k. k < window_count seq_len stride (fst (shape2 features)) \<longrightarrow>
            length (data3 X ! k) = snd (shape2 features) \<and>
            (\<forall>c. c < snd (shape2 features) \<longrightarrow>
               length (data3 X ! k ! c) = seq_len \<and>
               (\<forall>t. t < seq_len \<longrightarrow>
                  data3 X ! k ! c ! t = f32 (data2 features ! (k * stride + t) ! c))) \<and>
            data2 y ! k = map f32 (data2 lab ! (k * stride + seq_len - 1))))) \<and>
   window_loop 3 1 5 [] 0 = Some [(0, 3), (1, 4), (2, 5)] \<and>
   window_starts_spec 3 1 5 = [0, 1, 2] \<and>
   (\<forall>(f32 :: 'a \<Rightarrow> 'b) seq_len stride features l.
      fst (shape2 features) < seq_len \<longrightarrow>
      generate f32 seq_len stride features None
        = Some (Inr (\<lparr>shape3 = (0, snd (shape2 features), seq_len), data3 = []\<rparr>, None)) \<and>
      generate f32 seq_len stride features (Some l)
        = Some (Inr (\<lparr>shape3 = (0, snd (shape2 features), seq_len), data3 = []\<rparr>,
                     Some \<lparr>shape2 = (0, snd (shape2 (labels_2d l))), data2 = []\<rparr>)))"
proof (intro conjI)
  show "window_loop 3 1 5 [] 0 = Some [(0, 3), (1, 4), (2, 5)]"
    by (simp add: window_loop.simps)
  show "window_starts_spec 3 1 5 = [0, 1, 2]"
    by (simp add: window_starts_spec_def window_count_def upt_rec)
  show "\<forall>(f32 :: 'a \<Rightarrow> 'b) seq_len stride features l.
      fst (shape2 features) < seq_len \<longrightarrow>
      generate f32 seq_len stride features None
        = Some (Inr (\<lparr>shape3 = (0, snd (shape2 features), seq_len), data3 = []\<rparr>, None)) \<and>
      generate f32 seq_len stride features (Some l)
        = Some (Inr (\<lparr>shape3 = (0, snd (shape2 features), seq_len), data3 = []\<rparr>,
                     Some \<lparr>shape2 = (0, snd (shape2 (labels_2d l))), data2 = []\<rparr>))"
    by (simp add: generate_too_long)
  show "\<forall>(f32 :: 'a \<Rightarrow> 'b) seq_len stride features lab.
      1 \<le> seq_len \<and> 1 \<le> stride \<and> wf_array2 features \<and> wf_array2 lab \<and>
      fst (shape2 lab) = fst (shape2 features) \<longrightarrow>
      (\<exists>X y.
         generate f32 seq_len stride features (Some (Labels2 lab)) = Some (Inr (X, Some y)) \<and>
         generate f32 seq_len stride features None = Some (Inr (X, None)) \<and>
         shape3 X = (window_count seq_len stride (fst (shape2 features)),
                     snd (shape2 features), seq_len) \<and>
         length (data3 X) = window_count seq_len stride (fst (shape2 features)) \<and>
         shape2 y = (window_count seq_len stride (fst (shape2 features)), snd (shape2 lab)) \<and>
         length (data2 y) = window_count seq_len stride (fst (shape2 features)) \<and>
         (\<forall>k. (k < window_count seq_len stride (fst (shape2 features)))
                = (k * stride + seq_len \<le> fst (shape2 features))) \<and>
         (\<forall>k. k < window_count seq_len stride (fst (shape2 features)) \<longrightarrow>
            length (data3 X ! k) = snd (shape2 features) \<and>
            (\<forall>c. c < snd (shape2 features) \<longrightarrow>
               length (data3 X ! k ! c) = seq_len \<and>
               (\<forall>t. t < seq_len \<longrightarrow>
                  data3 X ! k ! c ! t = f32 (data2 features ! (k * stride + t) ! c))) \<and>
            data2 y ! k = map f32 (data2 lab ! (k * stride + seq_len - 1))))"
  proof (intro allI impI)
    fix f32 :: "'a \<Rightarrow> 'b" and seq_len stride :: nat and features lab :: "'a array2"
    assume h: "1 \<le> seq_len \<and> 1 \<le> stride \<and> wf_array2 features \<and> wf_array2 lab \<and>
      fst (shape2 lab) = fst (shape2 features)"
    let ?T = "fst (shape2 features)" and ?F = "snd (shape2 features)"
    let ?m = "window_count seq_len stride ?T"
    let ?idx = "map (\<lambda>k. (k * stride, k * stride + seq_len)) [0..<?m]"
    let ?X = "\<lparr>shape3 = (?m, ?F, seq_len),
               data3 = map (slab_T f32 ?F (data2 features)) ?idx\<rparr>"
    let ?y = "\<lparr>shape2 = (?m, snd (shape2 lab)),
               data2 = map (\<lambda>(s, e). map f32 (data2 lab ! (e - 1))) ?idx\<rparr>"
    from h have st: "0 < stride" and sl: "0 < seq_len"
      and lf: "length (data2 features) = ?T" and ll: "length (data2 lab) = ?T"
      by (simp_all add: wf_array2_def)
    note g = generate_ok [OF st sl ll refl refl, of f32]
    note cnt = window_count_iff [OF st, of _ seq_len ?T]
    have cells: "\<forall>k. k < ?m \<longrightarrow>
            length (data3 ?X ! k) = ?F \<and>
            (\<forall>c. c < ?F \<longrightarrow>
               length (data3 ?X ! k ! c) = seq_len \<and>
               (\<forall>t. t < seq_len \<longrightarrow>
                  data3 ?X ! k ! c ! t = f32 (data2 features ! (k * stride + t) ! c))) \<and>
            data2 ?y ! k = map f32 (data2 lab ! (k * stride + seq_len - 1))"
    proof (intro allI impI conjI)
      fix k assume k: "k < ?m"
      then have fit: "k * stride + seq_len \<le> length (data2 features)"
        by (simp add: cnt lf)
      from k show "length (data3 ?X ! k) = ?F"
        by (simp add: slab_T_shape(1) [OF fit])
      from k show "data2 ?y ! k = map f32 (data2 lab ! (k * stride + seq_len - 1))"
        by simp
      fix c assume c: "c < ?F"
      from k c show "length (data3 ?X ! k ! c) = seq_len"
        by (simp add: slab_T_shape(2) [OF fit])
      fix t assume t: "t < seq_len"
      from k c t show "data3 ?X ! k ! c ! t = f32 (data2 features ! (k * stride + t) ! c)"
        by (simp add: slab_T_nth [OF _ _ fit])
    qed
    have "generate f32 seq_len stride features (Some (Labels2 lab)) = Some (Inr (?X, Some ?y)) \<and>
         generate f32 seq_len stride features None = Some (Inr (?X, None)) \<and>
         shape3 ?X = (?m, ?F, seq_len) \<and> length (data3 ?X) = ?m \<and>
         shape2 ?y = (?m, snd (shape2 lab)) \<and> length (data2 ?y) = ?m \<and>
         (\<forall>k. (k < ?m) = (k * stride + seq_len \<le> ?T))"
      using g cnt by simp
    with cells show "\<exists>X y.
         generate f32 seq_len stride features (Some (Labels2 lab)) = Some (Inr (X, Some y)) \<and>
         generate f32 seq_len stride features None = Some (Inr (X, None)) \<and>
         shape3 X = (?m, ?F, seq_len) \<and>
         length (data3 X) = ?m \<and>
         shape2 y = (?m, snd (shape2 lab)) \<and>
         length (data2 y) = ?m \<and>
         (\<forall>k. (k < ?m) = (k * stride + seq_len \<le> ?T)) \<and>
         (\<forall>k. k < ?m \<longrightarrow>
            length (data3 X ! k) = ?F \<and>
            (\<forall>c. c < ?F \<longrightarrow>
               length (data3 X ! k ! c) = seq_len \<and>
               (\<forall>t. t < seq_len \<longrightarrow>
                  data3 X ! k ! c ! t = f32 (data2 features ! (k * stride + t) ! c))) \<and>
            data2 y ! k = map f32 (data2 lab ! (k * stride + seq_len - 1)))"
      by blast
  qed
qed

theorem windower_windows_and_alignment_witness:
  "(1 :: nat) \<le> 3 \<and> (1 :: nat) \<le> 1 \<and>
   wf_array2 (array2_of 1 [[10], [20], [30], [40], [50 :: real]]) \<and>
   wf_array2 (array2_of 2 [[0, 0], [0, 1], [1, 0], [0, 0], [1, 1 :: real]]) \<and>
   fst (shape2 (array2_of 2 [[0, 0], [0, 1], [1, 0], [0, 0], [1, 1 :: real]]))
     = fst (shape2 (array2_of 1 [[10], [20], [30], [40], [50 :: real]])) \<and>
   (\<exists>X y. generate (\<lambda>x :: real. x) 3 1 (array2_of 1 [[10], [20], [30], [40], [50]])
              (Some (Labels2 (array2_of 2 [[0, 0], [0, 1], [1, 0], [0, 0], [1, 1]])))
            = Some (Inr (X, Some y)) \<and>
          length (data3 X) = window_count 3 1
             (fst (shape2 (array2_of 1 [[10], [20], [30], [40], [50 :: real]])))) \<and>
   window_count 3 1 (fst (shape2 (array2_of 1 [[10], [20], [30], [40], [50 :: real]]))) = 3 \<and>
   fst (shape2 (array2_of 1 [[10], [20], [30], [40], [50 :: real]])) < 7 \<and>
   generate (\<lambda>x :: real. x) 7 1 (array2_of 1 [[10], [20], [30], [40], [50]]) None
     = Some (Inr (\<lparr>shape3 = (0, snd (shape2 (array2_of 1 [[10], [20], [30], [40], [50 :: real]])), 7),
                   data3 = []\<rparr>, None))"
proof -
  have h: "(1 :: nat) \<le> 3 \<and> (1 :: nat) \<le> 1 \<and>
     wf_array2 (array2_of 1 [[10], [20], [30], [40], [50 :: real]]) \<and>
     wf_array2 (array2_of 2 [[0, 0], [0, 1], [1, 0], [0, 0], [1, 1 :: real]]) \<and>
     fst (shape2 (array2_of 2 [[0, 0], [0, 1], [1, 0], [0, 0], [1, 1 :: real]]))
       = fst (shape2 (array2_of 1 [[10], [20], [30], [40], [50 :: real]]))"
    by (simp add: wf_array2_def array2_of_def)
  have c: "window_count 3 1 (fst (shape2 (array2_of 1 [[10], [20], [30], [40], [50 :: real]]))) = 3"
    by (simp add: window_count_def array2_of_def)
  have l: "fst (shape2 (array2_of 1 [[10], [20], [30], [40], [50 :: real]])) < 7"
    by (simp add: array2_of_def)
  note a = windower_windows_and_alignment [where 'a = real and 'b = real, THEN conjunct1,
      rule_format, OF h, of "\<lambda>x. x"]
  from a have ex: "\<exists>X y. generate (\<lambda>x :: real. x) 3 1 (array2_of 1 [[10], [20], [30], [40], [50]])
              (Some (Labels2 (array2_of 2 [[0, 0], [0, 1], [1, 0], [0, 0], [1, 1]])))
            = Some (Inr (X, Some y)) \<and>
          length (data3 X) = window_count 3 1
             (fst (shape2 (array2_of 1 [[10], [20], [30], [40], [50 :: real]])))"
    by blast
  note b = windower_windows_and_alignment [where 'a = real and 'b = real, THEN conjunct2,
      THEN conjunct2, THEN conjunct2, rule_format, OF l, of "\<lambda>x. x" 1, THEN conjunct1]
  from h ex c l b show ?thesis by (intro conjI) blast+
qed

section \<open>Rolling slope, angle and acceleration\<close>

lemma those_map_Some: "those (map Some ys) = Some ys"
  by (induction ys) simp_all

lemma defined_series:
  assumes "None \<notin> set xs"
  shows "\<exists>ys. xs = map Some ys"
  using assms
proof (induction xs)
  case Nil
  then show ?case by simp
next
  case (Cons x xs)
  then obtain ys where "xs = map Some ys" by auto
  moreover from Cons.prems obtain y where "x = Some y" by (cases x) auto
  ultimately have "x # xs = map Some (y # ys)" by simp
  then show ?case by (rule exI)
qed

lemma rolling_apply_nth:
  assumes "i < length ys"
  shows "rolling_apply w f (map Some ys) ! i
       = (if w \<le> i + 1 then Some (f (drop (i + 1 - w) (take (i + 1) ys))) else None)"
proof -
  have "drop (i + 1 - w) (take (i + 1) (map Some ys))
      = map Some (drop (i + 1 - w) (take (i + 1) ys))"
    by (simp add: take_map drop_map)
  moreover have "length (drop (i + 1 - w) (take (i + 1) ys)) = i + 1 - (i + 1 - w)"
    using assms by simp
  ultimately show ?thesis
    using assms by (auto simp: rolling_apply_def those_map_Some)
qed

lemma length_rolling_slope: "length (rolling_slope series w) = length series"
  by (simp add: rolling_slope_def rolling_apply_def)

lemma length_diff: "length (diff xs) = length xs"
  by (simp add: diff_def)

lemma diff_nth_None:
  assumes "i < length xs"
  shows "(diff xs ! i = None) = (i = 0 \<or> xs ! i = None \<or> xs ! (i - 1) = None)"
  using assms by (auto simp: diff_def split: option.splits)

lemma angle_nth_None:
  assumes "i < length xs"
  shows "(angle_from_slope xs ! i = None) = (xs ! i = None)"
  using assms by (simp add: angle_from_slope_def)

lemma rolling_slope_None:
  assumes "None \<notin> set series" and "i < length series"
  shows "(rolling_slope series w ! i = None) = (i + 1 < w)"
proof -
  from assms(1) obtain ys where ys: "series = map Some ys"
    using defined_series by blast
  with assms(2) show ?thesis
    by (auto simp: rolling_slope_def rolling_apply_nth)
qed

lemma rolling_accel_None:
  assumes "None \<notin> set series" and "i < length series" and "1 \<le> w"
  shows "(diff (rolling_slope series w) ! i = None) = (i < w)"
proof (cases i)
  case 0
  with assms show ?thesis
    by (simp add: diff_nth_None length_rolling_slope)
next
  case (Suc j)
  with assms have "j < length series" by simp
  with assms Suc show ?thesis
    by (auto simp: diff_nth_None length_rolling_slope rolling_slope_None)
qed

lemma metrics_columns:
  assumes "map_of (df_cols ha_df) ''ha_close'' = Some series"
  shows "column (compute_ha_external_metrics ha_df [w]) (''haext_slope_w'' @ digits w)
           = rolling_slope series w"
    and "column (compute_ha_external_metrics ha_df [w]) (''haext_angle_w'' @ digits w)
           = angle_from_slope (rolling_slope series w)"
    and "column (compute_ha_external_metrics ha_df [w]) (''haext_accel_w'' @ digits w)
           = diff (rolling_slope series w)"
  using assms by (simp_all add: compute_ha_external_metrics_def column_def Let_def)

text \<open>
  C5 as stated fails for the angle and the acceleration.  With window 2 on the series
  \<open>[1, 2, 4, 7]\<close>, which has no undefined value and more than \<open>w + 1 = 3\<close> rows, the
  slope is \<open>[NaN, 1, 2, 3]\<close>; the angle is defined at row \<open>1 = w - 1\<close> (45 degrees),
  so it is not undefined on the first \<open>w\<close> rows, and the acceleration is defined at
  row \<open>2 = w\<close>, so it is not undefined on the first \<open>w + 1\<close> rows.
\<close>

theorem rolling_warmup_counterexample:
  "None \<notin> set (map Some [1, 2, 4, 7 :: real]) \<and>
   (2 :: nat) + 1 < length (map Some [1, 2, 4, 7 :: real]) \<and>
   rolling_slope (map Some [1, 2, 4, 7]) 2 = [None, Some 1, Some 2, Some 3] \<and>
   angle_from_slope (rolling_slope (map Some [1, 2, 4, 7]) 2) ! 1 = Some 45 \<and>
   rolling_acceleration (map Some [1, 2, 4, 7]) 2 ! 2 = Some 1"
proof (intro conjI)
  show "rolling_slope (map Some [1, 2, 4, 7]) 2 = [None, Some 1, Some 2, Some 3]"
    by code_simp
  then show "angle_from_slope (rolling_slope (map Some [1, 2, 4, 7]) 2) ! 1 = Some 45"
    by (simp add: angle_from_slope_def arctan_one)
  show "rolling_acceleration (map Some [1, 2, 4, 7]) 2 ! 2 = Some 1"
    by code_simp
qed simp_all

text \<open>
  C5, amended (warm-up prefixes of the rolling metrics).  For every window \<open>w \<ge> 2\<close>
  and every input series with no undefined value and more than \<open>w + 1\<close> rows, the
  slope series and the angle series are undefined on exactly the first \<open>w - 1\<close> rows,
  and the acceleration series on exactly the first \<open>w\<close> rows; all later rows are
  defined.  This holds of the three functions and of the columns that
  \<open>compute_ha_external_metrics\<close> builds from them.
\<close>

theorem rolling_warmup:
  assumes "2 \<le> w"
    and "map_of (df_cols ha_df) ''ha_close'' = Some series"
    and "None \<notin> set series"
    and "w + 1 < length series"
    and "i < length series"
  shows "(rolling_slope series w ! i = None) = (i < w - 1) \<and>
         (angle_from_slope (rolling_slope series w) ! i = None) = (i < w - 1) \<and>
         (rolling_acceleration series w ! i = None) = (i < w) \<and>
         length (column (compute_ha_external_metrics ha_df [w]) (''haext_slope_w'' @ digits w))
           = length series \<and>
         length (column (compute_ha_external_metrics ha_df [w]) (''haext_angle_w'' @ digits w))
           = length series \<and>
         length (column (compute_ha_external_metrics ha_df [w]) (''haext_accel_w'' @ digits w))
           = length series \<and>
         (column (compute_ha_external_metrics ha_df [w]) (''haext_slope_w'' @ digits w) ! i = None)
           = (i < w - 1) \<and>
         (column (compute_ha_external_metrics ha_df [w]) (''haext_angle_w'' @ digits w) ! i = None)
           = (i < w - 1) \<and>
         (column (compute_ha_external_metrics ha_df [w]) (''haext_accel_w'' @ digits w) ! i = None)
           = (i < w)"
proof -
  from assms(1) have w: "1 \<le> w" "(i + 1 < w) = (i < w - 1)" by auto
  have s: "(rolling_slope series w ! i = None) = (i < w - 1)"
    using rolling_slope_None [OF assms(3,5), of w] w by simp
  have a: "(angle_from_slope (rolling_slope series w) ! i = None) = (i < w - 1)"
    using assms(5) s by (simp add: angle_nth_None length_rolling_slope)
  have d: "(diff (rolling_slope series w) ! i = None) = (i < w)"
    using assms(3,5) w(1) by (rule rolling_accel_None)
  have l: "length (angle_from_slope (rolling_slope series w)) = length series"
    "length (diff (rolling_slope series w)) = length series"
    by (simp_all add: angle_from_slope_def length_diff length_rolling_slope)
  show ?thesis
    unfolding metrics_columns [OF assms(2)] rolling_acceleration_def
    using s a d l by (simp add: length_rolling_slope)
qed

theorem rolling_warmup_witness:
  "(2 :: nat) \<le> 3 \<and>
   map_of (df_cols (frame_of [(''ha_close'', map Some [1, 2, 4, 7, 11 :: real])])) ''ha_close''
     = Some (map Some [1, 2, 4, 7, 11]) \<and>
   None \<notin> set (map Some [1, 2, 4, 7, 11 :: real]) \<and>
   (3 :: nat) + 1 < length (map Some [1, 2, 4, 7, 11 :: real]) \<and>
   (2 :: nat) < length (map Some [1, 2, 4, 7, 11 :: real]) \<and>
   (rolling_slope (map Some [1, 2, 4, 7, 11]) 3 ! 2 = None) = ((2 :: nat) < 3 - 1) \<and>
   (angle_from_slope (rolling_slope (map Some [1, 2, 4, 7, 11]) 3) ! 2 = None) = ((2 :: nat) < 3 - 1) \<and>
   (rolling_acceleration (map Some [1, 2, 4, 7, 11]) 3 ! 2 = None) = ((2 :: nat) < 3) \<and>
   (column (compute_ha_external_metrics
              (frame_of [(''ha_close'', map Some [1, 2, 4, 7, 11])]) [3])
           (''haext_accel_w'' @ digits 3) ! 2 = None) = ((2 :: nat) < 3)"
proof -
  have h1: "(2 :: nat) \<le> 3" by simp
  have h2: "map_of (df_cols (frame_of [(''ha_close'', map Some [1, 2, 4, 7, 11 :: real])])) ''ha_close''
     = Some (map Some [1, 2, 4, 7, 11])"
    by (simp add: frame_of_def)
  have h3: "None \<notin> set (map Some [1, 2, 4, 7, 11 :: real])" by simp
  have h4: "(3 :: nat) + 1 < length (map Some [1, 2, 4, 7, 11 :: real])" by simp
  have h5: "(2 :: nat) < length (map Some [1, 2, 4, 7, 11 :: real])" by simp
  from rolling_warmup [OF h1 h2 h3 h4 h5] h1 h2 h3 h4 h5 show ?thesis
    by (intro conjI) blast+
qed

section \<open>Temporal convolutional network\<close>

lemma time_len_shape: "has_shape C L x \<Longrightarrow> 1 \<le> C \<Longrightarrow> time_len x = L"
  by (cases x) (auto simp: has_shape_def time_len_def)

lemma has_shape_nth: "has_shape C L x \<Longrightarrow> c < C \<Longrightarrow> length (x ! c) = L"
  by (auto simp: has_shape_def list_all_length)

lemma agree_before_nth:
  assumes "agree_before n x y" and "length x = length y" and "c < length x"
  shows "take n (x ! c) = take n (y ! c)"
proof -
  from assms have "map (take n) x ! c = map (take n) y ! c"
    by (simp add: agree_before_def)
  with assms show ?thesis by simp
qed

lemma agree_beforeI:
  assumes "length x = length y" and "\<And>c. c < length x \<Longrightarrow> take n (x ! c) = take n (y ! c)"
  shows "agree_before n x y"
  unfolding agree_before_def using assms by (intro nth_equalityI) simp_all

lemma pad1d_nth_agree:
  assumes "length ch = length ch'" and "take n ch = take n ch'"
    and "i < n + p"
  shows "pad1d p ch ! i = pad1d p ch' ! i"
proof (cases "i < p")
  case True
  then show ?thesis by (simp add: pad1d_def nth_append)
next
  case False
  show ?thesis
  proof (cases "i - p < length ch")
    case True
    from False assms(3) have "i - p < n" by simp
    then have "ch ! (i - p) = take n ch ! (i - p)" "ch' ! (i - p) = take n ch' ! (i - p)"
      by simp_all
    with assms(2) have "ch ! (i - p) = ch' ! (i - p)" by simp
    with False True assms(1) show ?thesis
      by (simp add: pad1d_def nth_append)
  next
    case F2: False
    with False assms(1) show ?thesis
      by (simp add: pad1d_def nth_append)
  qed
qed

lemma conv_cell_agree:
  assumes "has_shape (cv_in_channels m) L x" and "has_shape (cv_in_channels m) L x'"
    and "agree_before n x x'"
    and "cv_stride m = 1" and "cv_padding m = (cv_kernel_size m - 1) * cv_dilation m"
    and "t < n"
  shows "conv_cell m (map (pad1d (cv_padding m)) x) oc t
       = conv_cell m (map (pad1d (cv_padding m)) x') oc t"
proof -
  have len: "length x = cv_in_channels m" "length x' = cv_in_channels m"
    using assms(1,2) by (simp_all add: has_shape_def)
  have "\<And>c j. c < cv_in_channels m \<Longrightarrow> j < cv_kernel_size m \<Longrightarrow>
      map (pad1d (cv_padding m)) x ! c ! (t * cv_stride m + j * cv_dilation m)
    = map (pad1d (cv_padding m)) x' ! c ! (t * cv_stride m + j * cv_dilation m)"
  proof -
    fix c j assume c: "c < cv_in_channels m" and j: "j < cv_kernel_size m"
    from j have "j \<le> cv_kernel_size m - 1" by simp
    then have "j * cv_dilation m \<le> cv_padding m"
      unfolding assms(5) by (rule mult_le_mono1)
    with assms(6) have i: "t + j * cv_dilation m < n + cv_padding m" by simp
    have l: "length (x ! c) = length (x' ! c)"
      using assms(1,2) c by (simp add: has_shape_nth)
    have tk: "take n (x ! c) = take n (x' ! c)"
      using assms(3) len c by (intro agree_before_nth) simp_all
    from pad1d_nth_agree [OF l tk i] c len assms(4)
    show "map (pad1d (cv_padding m)) x ! c ! (t * cv_stride m + j * cv_dilation m)
        = map (pad1d (cv_padding m)) x' ! c ! (t * cv_stride m + j * cv_dilation m)"
      by simp
  qed
  then show ?thesis
    unfolding conv_cell_def
    by (intro arg_cong2 [where f = "(+)"] refl arg_cong [where f = sum_list] map_cong) simp
qed


lemma conv1d_forward_ok:
  assumes "causal_conv m" and "has_shape (cv_in_channels m) L x" and "1 \<le> L"
  shows "conv1d_forward m x =
     Inr (map (\<lambda>oc. map (conv_cell m (map (pad1d (cv_padding m)) x) oc)
                       [0..<L + cv_padding m]) [0..<cv_out_channels m])"
proof -
  from assms have tl: "time_len x = L"
    by (intro time_len_shape [of "cv_in_channels m"]) (simp_all add: causal_conv_def)
  from assms(1) have p: "cv_dilation m * (cv_kernel_size m - 1) = cv_padding m"
    by (simp add: causal_conv_def mult.commute)
  from assms(1) have st: "cv_stride m = 1"
    by (simp add: causal_conv_def)
  from assms(3) have lo: "(time_len x + 2 * cv_padding m
        - cv_dilation m * (cv_kernel_size m - 1) - 1) div cv_stride m + 1 = L + cv_padding m"
    unfolding tl p st by simp
  have ok: "\<not> (cv_kernel_size m = 0 \<or> cv_stride m = 0 \<or> length x \<noteq> cv_in_channels m \<or>
      time_len x + 2 * cv_padding m < cv_dilation m * (cv_kernel_size m - 1) + 1)"
    unfolding tl p using assms by (simp add: causal_conv_def has_shape_def)
  show ?thesis
    unfolding conv1d_forward_def Let_def lo using ok by simp
qed

lemma in_take_upt: "t \<in> set (take n [0..<M]) \<Longrightarrow> t < n"
  by (auto simp: in_set_conv_nth)

lemma conv1d_causal:
  assumes "causal_conv m" and "1 \<le> L"
    and "has_shape (cv_in_channels m) L x" and "has_shape (cv_in_channels m) L x'"
    and "agree_before n x x'"
  shows "\<exists>y y'. conv1d_forward m x = Inr y \<and> conv1d_forward m x' = Inr y' \<and>
           has_shape (cv_out_channels m) (L + cv_padding m) y \<and>
           has_shape (cv_out_channels m) (L + cv_padding m) y' \<and> agree_before n y y'"
proof -
  let ?y = "\<lambda>x. map (\<lambda>oc. map (conv_cell m (map (pad1d (cv_padding m)) x) oc)
                       [0..<L + cv_padding m]) [0..<cv_out_channels m]"
  have sh: "\<And>x. has_shape (cv_out_channels m) (L + cv_padding m) (?y x)"
    by (simp add: has_shape_def list_all_iff)
  from assms(1) have st: "cv_stride m = 1"
    and pd: "cv_padding m = (cv_kernel_size m - 1) * cv_dilation m"
    by (simp_all add: causal_conv_def)
  have "agree_before n (?y x) (?y x')"
  proof (rule agree_beforeI)
    show "length (?y x) = length (?y x')" by simp
  next
    fix c assume "c < length (?y x)"
    then have c: "c < cv_out_channels m" by simp
    have "take n (map (conv_cell m (map (pad1d (cv_padding m)) x) c) [0..<L + cv_padding m])
        = take n (map (conv_cell m (map (pad1d (cv_padding m)) x') c) [0..<L + cv_padding m])"
      unfolding take_map
      by (intro map_cong refl conv_cell_agree [OF assms(3,4,5) st pd])
         (rule in_take_upt)
    with c show "take n (?y x ! c) = take n (?y x' ! c)" by simp
  qed
  with sh [of x] sh [of x'] conv1d_forward_ok [OF assms(1,3,2)] conv1d_forward_ok [OF assms(1,4,2)]
  show ?thesis by simp
qed


lemma chomp_shape:
  assumes "has_shape C (L + p) y"
  shows "has_shape C L (Chomp1d_forward p y)"
  using assms by (auto simp: has_shape_def Chomp1d_forward_def list_all_iff)

lemma chomp_agree:
  assumes "has_shape C M y" and "has_shape C M y'" and "agree_before n y y'"
  shows "agree_before n (Chomp1d_forward p y) (Chomp1d_forward p y')"
proof (cases "p = 0")
  case True
  with assms(3) show ?thesis by (simp add: Chomp1d_forward_def)
next
  case False
  have len: "length y = C" "length y' = C"
    using assms(1,2) by (simp_all add: has_shape_def)
  show ?thesis
  proof (rule agree_beforeI)
    show "length (Chomp1d_forward p y) = length (Chomp1d_forward p y')"
      using len by (simp add: Chomp1d_forward_def)
  next
    fix c assume "c < length (Chomp1d_forward p y)"
    then have c: "c < C" using len False by (simp add: Chomp1d_forward_def)
    have l: "length (y ! c) = M" "length (y' ! c) = M"
      using assms(1,2) c by (simp_all add: has_shape_nth)
    have "take n (y ! c) = take n (y' ! c)"
      using assms(3) len c by (intro agree_before_nth) simp_all
    then have "take (M - p) (take n (y ! c)) = take (M - p) (take n (y' ! c))"
      by simp
    then have "take n (take (M - p) (y ! c)) = take n (take (M - p) (y' ! c))"
      by (simp add: min.commute)
    with False c len l show "take n (Chomp1d_forward p y ! c) = take n (Chomp1d_forward p y' ! c)"
      by (simp add: Chomp1d_forward_def)
  qed
qed

lemma relu_shape: "has_shape C L x \<Longrightarrow> has_shape C L (relu x)"
  by (simp add: has_shape_def relu_def list_all_iff)

lemma relu_agree:
  assumes "agree_before n x x'"
  shows "agree_before n (relu x) (relu x')"
proof -
  have eq: "\<And>z. map (take n) (relu z) = relu (map (take n) z)"
    by (simp add: relu_def take_map)
  from assms have "relu (map (take n) x) = relu (map (take n) x')"
    by (simp only: agree_before_def)
  then show ?thesis
    by (simp only: agree_before_def eq)
qed

lemma add_bc_ok:
  assumes "has_shape C L a" and "has_shape C L b" and "1 \<le> C"
  shows "add_bc a b = Inr (map (\<lambda>c. map (\<lambda>t. a ! c ! t + b ! c ! t) [0..<L]) [0..<C])"
proof -
  have len: "length a = C" "length b = C"
    using assms by (simp_all add: has_shape_def)
  have tl: "time_len a = L" "time_len b = L"
    using assms by (simp_all add: time_len_shape)
  have "map (\<lambda>c. map (\<lambda>t. bget (bget a c) t + bget (bget b c) t) [0..<L]) [0..<C]
      = map (\<lambda>c. map (\<lambda>t. a ! c ! t + b ! c ! t) [0..<L]) [0..<C]"
  proof (intro map_cong refl)
    fix c t assume "c \<in> set [0..<C]" and "t \<in> set [0..<L]"
    then have c: "c < C" and t: "t < L" by simp_all
    from c len have g: "bget a c = a ! c" "bget b c = b ! c"
      by (auto simp: bget_def)
    from c assms have "length (a ! c) = L" "length (b ! c) = L"
      by (simp_all add: has_shape_nth)
    with t have "bget (a ! c) t = a ! c ! t" "bget (b ! c) t = b ! c ! t"
      by (auto simp: bget_def)
    with g show "bget (bget a c) t + bget (bget b c) t = a ! c ! t + b ! c ! t"
      by simp
  qed
  then show ?thesis
    by (simp add: add_bc_def len tl bcast_same)
qed

lemma add_bc_causal:
  assumes "1 \<le> C"
    and "has_shape C L a" and "has_shape C L a'" and "agree_before n a a'"
    and "has_shape C L b" and "has_shape C L b'" and "agree_before n b b'"
  shows "\<exists>s s'. add_bc a b = Inr s \<and> add_bc a' b' = Inr s' \<and>
           has_shape C L s \<and> has_shape C L s' \<and> agree_before n s s'"
proof -
  let ?s = "\<lambda>a b. map (\<lambda>c. map (\<lambda>t. a ! c ! t + b ! c ! t) [0..<L]) [0..<C] :: sample"
  have sh: "\<And>a b. has_shape C L (?s a b)"
    by (simp add: has_shape_def list_all_iff)
  have len: "length a = C" "length a' = C" "length b = C" "length b' = C"
    using assms by (simp_all add: has_shape_def)
  have "agree_before n (?s a b) (?s a' b')"
  proof (rule agree_beforeI)
    show "length (?s a b) = length (?s a' b')" by simp
  next
    fix c assume "c < length (?s a b)"
    then have c: "c < C" by simp
    have la: "length (a ! c) = L" "length (a' ! c) = L" "length (b ! c) = L" "length (b' ! c) = L"
      using assms c by (simp_all add: has_shape_nth)
    have ta: "take n (a ! c) = take n (a' ! c)"
      using assms(4) len c by (intro agree_before_nth) simp_all
    have tb: "take n (b ! c) = take n (b' ! c)"
      using assms(7) len c by (intro agree_before_nth) simp_all
    have "take n (map (\<lambda>t. a ! c ! t + b ! c ! t) [0..<L])
        = take n (map (\<lambda>t. a' ! c ! t + b' ! c ! t) [0..<L])"
      unfolding take_map
    proof (intro map_cong refl)
      fix t assume "t \<in> set (take n [0..<L])"
      then have t: "t < n" by (rule in_take_upt)
      then have "a ! c ! t = take n (a ! c) ! t" "a' ! c ! t = take n (a' ! c) ! t"
        "b ! c ! t = take n (b ! c) ! t" "b' ! c ! t = take n (b' ! c) ! t"
        by simp_all
      with ta tb show "a ! c ! t + b ! c ! t = a' ! c ! t + b' ! c ! t" by simp
    qed
    with c show "take n (?s a b ! c) = take n (?s a' b' ! c)" by simp
  qed
  with sh [of a b] sh [of a' b'] add_bc_ok [OF assms(2,5,1)] add_bc_ok [OF assms(3,6,1)]
  show ?thesis by simp
qed

lemma stage_causal:
  assumes "causal_conv m" and "1 \<le> L"
    and "has_shape (cv_in_channels m) L x" and "has_shape (cv_in_channels m) L x'"
    and "agree_before n x x'"
  shows "\<exists>a a'. conv1d_forward m x = Inr a \<and> conv1d_forward m x' = Inr a' \<and>
           agree_before n a a' \<and>
           agree_before n (Chomp1d_forward (cv_padding m) a) (Chomp1d_forward (cv_padding m) a') \<and>
           has_shape (cv_out_channels m) L (dropout_eval (relu (Chomp1d_forward (cv_padding m) a))) \<and>
           has_shape (cv_out_channels m) L (dropout_eval (relu (Chomp1d_forward (cv_padding m) a'))) \<and>
           agree_before n (dropout_eval (relu (Chomp1d_forward (cv_padding m) a)))
                          (dropout_eval (relu (Chomp1d_forward (cv_padding m) a')))"
proof -
  from conv1d_causal [OF assms] obtain a a' where
    a: "conv1d_forward m x = Inr a" "conv1d_forward m x' = Inr a'"
       "has_shape (cv_out_channels m) (L + cv_padding m) a"
       "has_shape (cv_out_channels m) (L + cv_padding m) a'" "agree_before n a a'"
    by blast
  have c: "agree_before n (Chomp1d_forward (cv_padding m) a) (Chomp1d_forward (cv_padding m) a')"
    using a(3,4,5) by (rule chomp_agree)
  have "has_shape (cv_out_channels m) L (relu (Chomp1d_forward (cv_padding m) a))"
    "has_shape (cv_out_channels m) L (relu (Chomp1d_forward (cv_padding m) a'))"
    using a(3,4) by (simp_all add: relu_shape chomp_shape)
  moreover have "agree_before n (relu (Chomp1d_forward (cv_padding m) a))
      (relu (Chomp1d_forward (cv_padding m) a'))"
    using c by (rule relu_agree)
  ultimately show ?thesis
    using a(1,2,5) c by (simp add: dropout_eval_def)
qed

lemma block_convs:
  assumes "1 \<le> in_ch" and "1 \<le> out_ch" and "1 \<le> k"
    and "blk = TemporalBlock in_ch out_ch k 1 d ((k - 1) * d) \<theta>"
  shows "causal_conv (conv1 blk)" and "cv_in_channels (conv1 blk) = in_ch"
    and "cv_out_channels (conv1 blk) = out_ch" and "cv_padding (conv1 blk) = chomp1 blk"
    and "causal_conv (conv2 blk)" and "cv_in_channels (conv2 blk) = out_ch"
    and "cv_out_channels (conv2 blk) = out_ch" and "cv_padding (conv2 blk) = chomp2 blk"
    and "in_ch = out_ch \<Longrightarrow> downsample blk = None"
    and "in_ch \<noteq> out_ch \<Longrightarrow> \<exists>ds. downsample blk = Some ds \<and> causal_conv ds \<and>
           cv_in_channels ds = in_ch \<and> cv_out_channels ds = out_ch \<and> cv_padding ds = 0"
  using assms by (simp_all add: TemporalBlock_def causal_conv_def)

lemma res_causal:
  assumes "1 \<le> in_ch" and "1 \<le> out_ch" and "1 \<le> k" and "1 \<le> L"
    and "blk = TemporalBlock in_ch out_ch k 1 d ((k - 1) * d) \<theta>"
    and "has_shape in_ch L x" and "has_shape in_ch L x'" and "agree_before n x x'"
  shows "\<exists>r r'. block_res blk x = Inr r \<and> block_res blk x' = Inr r' \<and>
           has_shape out_ch L r \<and> has_shape out_ch L r' \<and> agree_before n r r'"
proof (cases "in_ch = out_ch")
  case True
  with block_convs(9) [OF assms(1,2,3,5)] have "downsample blk = None" by simp
  with True assms(6,7,8) show ?thesis by (simp add: block_res_def)
next
  case False
  with block_convs(10) [OF assms(1,2,3,5)] obtain ds where
    ds: "downsample blk = Some ds" "causal_conv ds" "cv_in_channels ds = in_ch"
        "cv_out_channels ds = out_ch" "cv_padding ds = 0"
    by blast
  from conv1d_causal [OF ds(2) assms(4), of x x' n] assms(6,7,8) ds(3,4,5)
  show ?thesis by (simp add: block_res_def ds(1))
qed

lemma block_causal:
  assumes "1 \<le> in_ch" and "1 \<le> out_ch" and "1 \<le> k" and "1 \<le> L"
    and "blk = TemporalBlock in_ch out_ch k 1 d ((k - 1) * d) \<theta>"
    and "has_shape in_ch L x" and "has_shape in_ch L x'" and "agree_before n x x'"
  shows "\<exists>y y' acts acts'.
           TemporalBlock_forward blk x = Inr y \<and> TemporalBlock_forward blk x' = Inr y' \<and>
           has_shape out_ch L y \<and> has_shape out_ch L y' \<and> agree_before n y y' \<and>
           TemporalBlock_activations blk x = Inr acts \<and>
           TemporalBlock_activations blk x' = Inr acts' \<and>
           list_all2 (agree_before n) acts acts'"
proof -
  note cv = block_convs [OF assms(1,2,3,5)]
  from stage_causal [OF cv(1) assms(4), of x x' n] assms(6,7,8) cv(2,3,4)
  obtain a1 a1' where
    a1: "conv1d_forward (conv1 blk) x = Inr a1" "conv1d_forward (conv1 blk) x' = Inr a1'"
        "agree_before n a1 a1'"
        "agree_before n (Chomp1d_forward (chomp1 blk) a1) (Chomp1d_forward (chomp1 blk) a1')"
        "has_shape out_ch L (dropout_eval (relu (Chomp1d_forward (chomp1 blk) a1)))"
        "has_shape out_ch L (dropout_eval (relu (Chomp1d_forward (chomp1 blk) a1')))"
        "agree_before n (dropout_eval (relu (Chomp1d_forward (chomp1 blk) a1)))
                        (dropout_eval (relu (Chomp1d_forward (chomp1 blk) a1')))"
    by auto
  define o1 where "o1 = dropout_eval (relu (Chomp1d_forward (chomp1 blk) a1))"
  define o1' where "o1' = dropout_eval (relu (Chomp1d_forward (chomp1 blk) a1'))"
  have s1: "block_stage1 blk x = Inr o1" "block_stage1 blk x' = Inr o1'"
    by (simp_all add: block_stage1_def and_then_def a1 o1_def o1'_def)
  have o1: "has_shape out_ch L o1" "has_shape out_ch L o1'" "agree_before n o1 o1'"
    using a1(5,6,7) by (simp_all add: o1_def o1'_def)
  from stage_causal [OF cv(5) assms(4), of o1 o1' n] o1 cv(6,7,8)
  obtain a2 a2' where
    a2: "conv1d_forward (conv2 blk) o1 = Inr a2" "conv1d_forward (conv2 blk) o1' = Inr a2'"
        "agree_before n a2 a2'"
        "agree_before n (Chomp1d_forward (chomp2 blk) a2) (Chomp1d_forward (chomp2 blk) a2')"
        "has_shape out_ch L (dropout_eval (relu (Chomp1d_forward (chomp2 blk) a2)))"
        "has_shape out_ch L (dropout_eval (relu (Chomp1d_forward (chomp2 blk) a2')))"
        "agree_before n (dropout_eval (relu (Chomp1d_forward (chomp2 blk) a2)))
                        (dropout_eval (relu (Chomp1d_forward (chomp2 blk) a2')))"
    by auto
  define o2 where "o2 = dropout_eval (relu (Chomp1d_forward (chomp2 blk) a2))"
  define o2' where "o2' = dropout_eval (relu (Chomp1d_forward (chomp2 blk) a2'))"
  have s2: "block_stage2 blk o1 = Inr o2" "block_stage2 blk o1' = Inr o2'"
    by (simp_all add: block_stage2_def and_then_def a2 o2_def o2'_def)
  have o2: "has_shape out_ch L o2" "has_shape out_ch L o2'" "agree_before n o2 o2'"
    using a2(5,6,7) by (simp_all add: o2_def o2'_def)
  from res_causal [OF assms] obtain r r' where
    r: "block_res blk x = Inr r" "block_res blk x' = Inr r'"
       "has_shape out_ch L r" "has_shape out_ch L r'" "agree_before n r r'"
    by blast
  from add_bc_causal [OF assms(2) o2 r(3,4,5)] obtain s s' where
    s: "add_bc o2 r = Inr s" "add_bc o2' r' = Inr s'"
       "has_shape out_ch L s" "has_shape out_ch L s'" "agree_before n s s'"
    by blast
  have f: "TemporalBlock_forward blk x = Inr (relu s)" "TemporalBlock_forward blk x' = Inr (relu s')"
    by (simp_all add: TemporalBlock_forward_def and_then_def s1 s2 r s)
  have t: "TemporalBlock_activations blk x =
      Inr [a1, Chomp1d_forward (chomp1 blk) a1, o1, a2, Chomp1d_forward (chomp2 blk) a2, o2,
           r, s, relu s]"
    "TemporalBlock_activations blk x' =
      Inr [a1', Chomp1d_forward (chomp1 blk) a1', o1', a2', Chomp1d_forward (chomp2 blk) a2', o2',
           r', s', relu s']"
    by (simp_all add: TemporalBlock_activations_def and_then_def a1 a2 s1 s2 r s)
  have "list_all2 (agree_before n)
      [a1, Chomp1d_forward (chomp1 blk) a1, o1, a2, Chomp1d_forward (chomp2 blk) a2, o2,
           r, s, relu s]
      [a1', Chomp1d_forward (chomp1 blk) a1', o1', a2', Chomp1d_forward (chomp2 blk) a2', o2',
           r', s', relu s']"
    using a1(3,4) o1(3) a2(3,4) o2(3) r(5) s(5) by (simp add: relu_agree)
  with f t s(3,4,5) show ?thesis
    by (simp add: relu_shape relu_agree)
qed

lemma backbone_causal:
  assumes "1 \<le> k" and "1 \<le> L"
  shows "1 \<le> in_ch \<Longrightarrow> list_all (\<lambda>c. 1 \<le> c) chans \<Longrightarrow>
     has_shape in_ch L x \<Longrightarrow> has_shape in_ch L x' \<Longrightarrow> agree_before n x x' \<Longrightarrow>
     \<exists>y y' acts acts'.
       TCNBackbone_forward (backbone_layers k i in_ch chans \<theta>) x = Inr y \<and>
       TCNBackbone_forward (backbone_layers k i in_ch chans \<theta>) x' = Inr y' \<and>
       has_shape (last (in_ch # chans)) L y \<and> has_shape (last (in_ch # chans)) L y' \<and>
       agree_before n y y' \<and>
       TCNBackbone_activations (backbone_layers k i in_ch chans \<theta>) x = Inr acts \<and>
       TCNBackbone_activations (backbone_layers k i in_ch chans \<theta>) x' = Inr acts' \<and>
       list_all2 (agree_before n) acts acts'"
proof (induction chans arbitrary: i in_ch x x')
  case Nil
  then show ?case by simp
next
  case (Cons out_ch rest)
  from Cons.prems(2) have oc: "1 \<le> out_ch" and rest: "list_all (\<lambda>c. 1 \<le> c) rest"
    by simp_all
  define blk where "blk = TemporalBlock in_ch out_ch k 1 (2 ^ i) ((k - 1) * 2 ^ i) (\<theta> i)"
  from block_causal [OF Cons.prems(1) oc assms(1,2) blk_def Cons.prems(3,4,5)]
  obtain z z' as as' where
    z: "TemporalBlock_forward blk x = Inr z" "TemporalBlock_forward blk x' = Inr z'"
       "has_shape out_ch L z" "has_shape out_ch L z'" "agree_before n z z'"
       "TemporalBlock_activations blk x = Inr as" "TemporalBlock_activations blk x' = Inr as'"
       "list_all2 (agree_before n) as as'"
    by blast
  from Cons.IH [OF oc rest z(3,4,5), of "Suc i"]
  obtain y y' acts acts' where
    y: "TCNBackbone_forward (backbone_layers k (Suc i) out_ch rest \<theta>) z = Inr y"
       "TCNBackbone_forward (backbone_layers k (Suc i) out_ch rest \<theta>) z' = Inr y'"
       "has_shape (last (out_ch # rest)) L y" "has_shape (last (out_ch # rest)) L y'"
       "agree_before n y y'"
       "TCNBackbone_activations (backbone_layers k (Suc i) out_ch rest \<theta>) z = Inr acts"
       "TCNBackbone_activations (backbone_layers k (Suc i) out_ch rest \<theta>) z' = Inr acts'"
       "list_all2 (agree_before n) acts acts'"
    by blast
  have l: "backbone_layers k i in_ch (out_ch # rest) \<theta>
      = blk # backbone_layers k (Suc i) out_ch rest \<theta>"
    by (simp add: blk_def)
  have "TCNBackbone_forward (backbone_layers k i in_ch (out_ch # rest) \<theta>) x = Inr y"
    "TCNBackbone_forward (backbone_layers k i in_ch (out_ch # rest) \<theta>) x' = Inr y'"
    "TCNBackbone_activations (backbone_layers k i in_ch (out_ch # rest) \<theta>) x = Inr (as @ acts)"
    "TCNBackbone_activations (backbone_layers k i in_ch (out_ch # rest) \<theta>) x' = Inr (as' @ acts')"
    unfolding l by (simp_all add: and_then_def z y)
  moreover have "list_all2 (agree_before n) (as @ acts) (as' @ acts')"
    using z(8) y(8) by (rule list_all2_appendI)
  moreover have "last (in_ch # out_ch # rest) = last (out_ch # rest)"
    by simp
  ultimately show ?case
    using y(3,4,5) by simp
qed

lemma agree_before_pointwiseI:
  assumes "has_shape C L x" and "has_shape C L x'"
    and "\<forall>c s. c < C \<and> s < n \<longrightarrow> x ! c ! s = x' ! c ! s"
  shows "agree_before n x x'"
proof (rule agree_beforeI)
  show "length x = length x'"
    using assms(1,2) by (simp add: has_shape_def)
next
  fix c assume "c < length x"
  then have c: "c < C" using assms(1) by (simp add: has_shape_def)
  then have l: "length (x ! c) = L" "length (x' ! c) = L"
    using assms(1,2) by (simp_all add: has_shape_nth)
  show "take n (x ! c) = take n (x' ! c)"
  proof (rule nth_equalityI)
    show "length (take n (x ! c)) = length (take n (x' ! c))"
      using l by simp
  next
    fix s assume "s < length (take n (x ! c))"
    then have "s < n" by simp
    with c assms(3) show "take n (x ! c) ! s = take n (x' ! c) ! s"
      by simp
  qed
qed

lemma agree_before_pointwiseD:
  assumes "agree_before n y y'" and "c < length y" and "s < n"
  shows "y ! c ! s = y' ! c ! s"
proof -
  from assms(1) have "length (map (take n) y) = length (map (take n) y')"
    by (simp only: agree_before_def)
  then have "length y = length y'" by simp
  with assms(1,2) have "take n (y ! c) = take n (y' ! c)"
    by (intro agree_before_nth)
  then have "take n (y ! c) ! s = take n (y' ! c) ! s" by simp
  with assms(3) show ?thesis by simp
qed

text \<open>
  C1 (causality of the backbone).  Take a backbone built by \<open>TCNBackbone\<close> with
  kernel size at least 1 and at least one feature and one channel per block, and two
  inputs of the same shape (features, \<open>L\<close>) that agree on every timestep up to and
  including \<open>t\<close>.  In evaluation mode the forward pass returns on both, with outputs
  of \<open>L\<close> timesteps, and the two outputs agree on every timestep up to \<open>t\<close>; so does
  every value passed through inside the blocks: the outputs of both convolutions
  before and after the trim, after the activation, the residual path, the sum and the
  output of each block.  So the output at \<open>t\<close> is a function of the input timesteps up
  to \<open>t\<close> alone; with \<open>t = L - 2\<close> the two inputs differ in the last timestep only.
\<close>

theorem tcn_causality:
  assumes "1 \<le> kernel_size" and "1 \<le> num_features"
    and "list_all (\<lambda>c. 1 \<le> c) num_channels"
    and "has_shape num_features L x" and "has_shape num_features L x'"
    and "t < L"
    and "\<forall>c s. c < num_features \<and> s \<le> t \<longrightarrow> x ! c ! s = x' ! c ! s"
  shows "\<exists>y y' acts acts'.
     TCNBackbone_forward (TCNBackbone num_features num_channels kernel_size \<theta>) x = Inr y \<and>
     TCNBackbone_forward (TCNBackbone num_features num_channels kernel_size \<theta>) x' = Inr y' \<and>
     has_shape (last (num_features # num_channels)) L y \<and>
     has_shape (last (num_features # num_channels)) L y' \<and>
     (\<forall>c s. c < length y \<and> s \<le> t \<longrightarrow> y ! c ! s = y' ! c ! s) \<and>
     TCNBackbone_activations (TCNBackbone num_features num_channels kernel_size \<theta>) x = Inr acts \<and>
     TCNBackbone_activations (TCNBackbone num_features num_channels kernel_size \<theta>) x' = Inr acts' \<and>
     length acts = length acts' \<and>
     (\<forall>m c s. m < length acts \<and> c < length (acts ! m) \<and> s \<le> t \<longrightarrow>
        acts ! m ! c ! s = acts' ! m ! c ! s)"
proof -
  from assms(6) have L: "1 \<le> L" by simp
  from assms(7) have "\<forall>c s. c < num_features \<and> s < Suc t \<longrightarrow> x ! c ! s = x' ! c ! s"
    by (simp add: less_Suc_eq_le)
  with assms(4,5) have "agree_before (Suc t) x x'"
    by (rule agree_before_pointwiseI)
  from backbone_causal [OF assms(1) L assms(2,3,4,5) this, of 0 \<theta>]
  obtain y y' acts acts' where
    r: "TCNBackbone_forward (TCNBackbone num_features num_channels kernel_size \<theta>) x = Inr y"
       "TCNBackbone_forward (TCNBackbone num_features num_channels kernel_size \<theta>) x' = Inr y'"
       "has_shape (last (num_features # num_channels)) L y"
       "has_shape (last (num_features # num_channels)) L y'"
       "agree_before (Suc t) y y'"
       "TCNBackbone_activations (TCNBackbone num_features num_channels kernel_size \<theta>) x = Inr acts"
       "TCNBackbone_activations (TCNBackbone num_features num_channels kernel_size \<theta>) x' = Inr acts'"
       "list_all2 (agree_before (Suc t)) acts acts'"
    unfolding TCNBackbone_def by blast
  have out: "\<forall>c s. c < length y \<and> s \<le> t \<longrightarrow> y ! c ! s = y' ! c ! s"
    using agree_before_pointwiseD [OF r(5)] by (simp add: less_Suc_eq_le)
  have len: "length acts = length acts'"
    using r(8) by (rule list_all2_lengthD)
  have inner: "\<forall>m c s. m < length acts \<and> c < length (acts ! m) \<and> s \<le> t \<longrightarrow>
        acts ! m ! c ! s = acts' ! m ! c ! s"
  proof (intro allI impI)
    fix m c s
    assume h: "m < length acts \<and> c < length (acts ! m) \<and> s \<le> t"
    then have "agree_before (Suc t) (acts ! m) (acts' ! m)"
      using r(8) by (simp add: list_all2_nthD)
    from agree_before_pointwiseD [OF this, of c s] h
    show "acts ! m ! c ! s = acts' ! m ! c ! s" by simp
  qed
  from r(1,2,3,4,6,7) out len inner show ?thesis by blast
qed

theorem tcn_causality_witness:
  "(1 :: nat) \<le> 3 \<and> (1 :: nat) \<le> 1 \<and> list_all (\<lambda>c. 1 \<le> c) [2 :: nat] \<and>
   has_shape 1 4 [[1, 2, 3, 4]] \<and> has_shape 1 4 [[1, 2, 3, 40]] \<and> (2 :: nat) < 4 \<and>
   take 3 [1, 2, 3, 4 :: real] = take 3 [1, 2, 3, 40] \<and>
   TCNBackbone_forward (TCNBackbone 1 [2] 3 example_params) [[1, 2, 3, 4]]
     = Inr [[5, 11, 21, 33], [5, 15, 31, 50]] \<and>
   TCNBackbone_forward (TCNBackbone 1 [2] 3 example_params) [[1, 2, 3, 40]]
     = Inr [[5, 11, 21, 177], [5, 15, 31, 230]] \<and>
   (\<exists>y y' acts acts'.
      TCNBackbone_forward (TCNBackbone 1 [2] 3 example_params) [[1, 2, 3, 4]] = Inr y \<and>
      TCNBackbone_forward (TCNBackbone 1 [2] 3 example_params) [[1, 2, 3, 40]] = Inr y' \<and>
      y ! 0 ! 2 = y' ! 0 ! 2 \<and> y ! 1 ! 2 = y' ! 1 ! 2 \<and>
      TCNBackbone_activations (TCNBackbone 1 [2] 3 example_params) [[1, 2, 3, 4]] = Inr acts \<and>
      TCNBackbone_activations (TCNBackbone 1 [2] 3 example_params) [[1, 2, 3, 40]] = Inr acts' \<and>
      length acts = length acts')"
proof -
  have h1: "(1 :: nat) \<le> 3" and h2: "(1 :: nat) \<le> 1" and h3: "list_all (\<lambda>c. 1 \<le> c) [2 :: nat]"
    and h4: "has_shape 1 4 [[1, 2, 3, 4]]" and h5: "has_shape 1 4 [[1, 2, 3, 40]]"
    and h6: "(2 :: nat) < 4"
    by (simp_all add: has_shape_def)
  have h7: "\<forall>c s. c < 1 \<and> s \<le> 2 \<longrightarrow> [[1, 2, 3, 4 :: real]] ! c ! s = [[1, 2, 3, 40]] ! c ! s"
  proof (intro allI impI)
    fix c s :: nat
    assume "c < 1 \<and> s \<le> 2"
    then have "c = 0" and "s = 0 \<or> s = 1 \<or> s = 2" by auto
    then show "[[1, 2, 3, 4 :: real]] ! c ! s = [[1, 2, 3, 40]] ! c ! s" by auto
  qed
  have e1: "TCNBackbone_forward (TCNBackbone 1 [2] 3 example_params) [[1, 2, 3, 4]]
     = Inr [[5, 11, 21, 33], [5, 15, 31, 50]]"
    by code_simp
  have e2: "TCNBackbone_forward (TCNBackbone 1 [2] 3 example_params) [[1, 2, 3, 40]]
     = Inr [[5, 11, 21, 177], [5, 15, 31, 230]]"
    by code_simp
  from tcn_causality [OF h1 h2 h3 h4 h5 h6 h7, of example_params]
  obtain y y' acts acts' where
    r: "TCNBackbone_forward (TCNBackbone 1 [2] 3 example_params) [[1, 2, 3, 4]] = Inr y"
       "TCNBackbone_forward (TCNBackbone 1 [2] 3 example_params) [[1, 2, 3, 40]] = Inr y'"
       "has_shape (last [1, 2]) 4 y"
       "\<forall>c s. c < length y \<and> s \<le> 2 \<longrightarrow> y ! c ! s = y' ! c ! s"
       "TCNBackbone_activations (TCNBackbone 1 [2] 3 example_params) [[1, 2, 3, 4]] = Inr acts"
       "TCNBackbone_activations (TCNBackbone 1 [2] 3 example_params) [[1, 2, 3, 40]] = Inr acts'"
       "length acts = length acts'"
    by blast
  from r(3) have "length y = 2" by (simp add: has_shape_def)
  with r(4) have "y ! 0 ! 2 = y' ! 0 ! 2" "y ! 1 ! 2 = y' ! 1 ! 2" by simp_all
  with r(1,2,5,6,7) have ex: "\<exists>y y' acts acts'.
      TCNBackbone_forward (TCNBackbone 1 [2] 3 example_params) [[1, 2, 3, 4]] = Inr y \<and>
      TCNBackbone_forward (TCNBackbone 1 [2] 3 example_params) [[1, 2, 3, 40]] = Inr y' \<and>
      y ! 0 ! 2 = y' ! 0 ! 2 \<and> y ! 1 ! 2 = y' ! 1 ! 2 \<and>
      TCNBackbone_activations (TCNBackbone 1 [2] 3 example_params) [[1, 2, 3, 4]] = Inr acts \<and>
      TCNBackbone_activations (TCNBackbone 1 [2] 3 example_params) [[1, 2, 3, 40]] = Inr acts' \<and>
      length acts = length acts'"
    by blast
  have tk: "take 3 [1, 2, 3, 4 :: real] = take 3 [1, 2, 3, 40]" by simp
  from h1 h2 h3 h4 h5 h6 tk e1 e2 ex show ?thesis by (intro conjI)
qed

end
